theory Spec2Isabelle
  imports Main "HOL-Library.Word" "HOL-Library.Char_ord" "HOL-Library.List_Lexorder"
begin

section \<open>The cache of nheko (src/Cache.cpp): data model\<close>

text \<open>
  The cache keeps its data in named LMDB tables and mirrors the group sessions in memory
  (\<^verbatim>\<open>session_storage\<close>). A table that the code only reads and writes by key is a map;
  a table that the code walks with a cursor is the list of its entries in the order in
  which \<^verbatim>\<open>cursor.get(key, value, MDB_NEXT)\<close> yields them. The engine itself is taken to
  work: no \<^verbatim>\<open>lmdb::error\<close> is raised.

  What is stored is a byte string that the code deserialises when it reads it back
  (\<^verbatim>\<open>json::parse\<close>, \<^verbatim>\<open>unpickle\<close>). A stored value is modelled by what the deserialiser
  used on it makes of it: \<open>Malformed\<close> when it throws, \<open>Encoded v\<close> when it returns \<open>v\<close>.
  Serialising \<open>v\<close> (\<^verbatim>\<open>json(v).dump()\<close>, \<^verbatim>\<open>pickle\<close>) gives \<open>Encoded v\<close>.
\<close>

datatype 'a stored = Malformed | Encoded 'a

datatype error = json_exception | olm_exception | null_dereference

text \<open>Line 35 and 40 of the source.\<close>

definition CURRENT_CACHE_FORMAT_VERSION :: string where
  "CURRENT_CACHE_FORMAT_VERSION = ''2018.06.10''"

definition CACHE_FORMAT_VERSION_KEY :: string where
  "CACHE_FORMAT_VERSION_KEY = ''cache_format_version''"


subsection \<open>Tables walked by a cursor\<close>

type_synonym ('k, 'v) dbi = "('k \<times> 'v) list"

definition dbi_get :: "('k, 'v) dbi \<Rightarrow> 'k \<Rightarrow> 'v option" where
  "dbi_get db k = map_of db k"

text \<open>\<^verbatim>\<open>lmdb::dbi_put\<close>: the value of an existing key is replaced, a new key is entered at
  its place in the key order (byte-wise order of the keys, the engine's default).\<close>

fun dbi_put :: "'k::linorder \<Rightarrow> 'v \<Rightarrow> ('k, 'v) dbi \<Rightarrow> ('k, 'v) dbi" where
  "dbi_put k v [] = [(k, v)]"
| "dbi_put k v ((k', v') # db) =
     (if k = k' then (k, v) # db
      else if k < k' then (k, v) # (k', v') # db
      else (k', v') # dbi_put k v db)"

subsection \<open>Sessions\<close>

text \<open>The session objects belong to the olm library; here a session is the opaque value
  that \<^verbatim>\<open>pickle\<close> serialises and \<^verbatim>\<open>unpickle\<close> gives back. A \<^verbatim>\<open>unique_ptr\<close> to a session
  is an option: \<open>None\<close> is the null pointer.\<close>

datatype OlmInboundGroupSession = InboundSession string

datatype OlmOutboundGroupSession = OutboundSession string

text \<open>\<^verbatim>\<open>OutboundGroupSessionData\<close> is declared in Cache.h, which is not among the sources.
  The functions of Cache.cpp touch its member \<^verbatim>\<open>message_index\<close> only, which they assign
  from an \<^verbatim>\<open>int\<close>; the other members are carried along as one opaque value.\<close>

record OutboundGroupSessionData =
  message_index :: int
  other_members :: string

definition default_OutboundGroupSessionData :: OutboundGroupSessionData where
  "default_OutboundGroupSessionData = \<lparr>message_index = 0, other_members = []\<rparr>"

text \<open>The value stored for an outbound session is the JSON object
  \<^verbatim>\<open>{"data": ..., "session": ...}\<close>. Reading it back can fail at three places:
  \<^verbatim>\<open>json::parse\<close> (\<open>NotJson\<close>), \<^verbatim>\<open>obj.at("data").get<OutboundGroupSessionData>()\<close>
  (first component \<open>None\<close>), \<^verbatim>\<open>obj.at("session")\<close> as a string (second component \<open>None\<close>),
  all three with a \<^verbatim>\<open>json::exception\<close>; and \<^verbatim>\<open>unpickle\<close> of the session string
  (second component \<open>Some Malformed\<close>).\<close>

datatype outbound_json =
  NotJson
| JsonObject "OutboundGroupSessionData option" "OlmOutboundGroupSession stored option"


subsection \<open>Rooms, power levels, messages, receipts\<close>

text \<open>\<^verbatim>\<open>RoomInfo\<close> (Cache.h): the members that Cache.cpp reads or writes.\<close>

record RoomInfo =
  name :: string
  topic :: string
  avatar_url :: string
  is_invite :: bool
  member_count :: nat

record RoomSearchResult =
  result_room_id :: string
  result_info :: RoomInfo
  result_img :: string

text \<open>Modelled from the spec: the content of a power-levels event, a structure of the
  matrix client library which is not among the sources. The spec gives the user's level
  ``default: the content's defined default user level'' and the level an event type
  requires ``default: the content's defined default state level''. The levels are
  integers of the library; the source narrows them to \<^verbatim>\<open>uint16_t\<close>.\<close>

record PowerLevels =
  users_levels :: "string \<rightharpoonup> int"
  events_levels :: "string \<rightharpoonup> int"
  users_default :: int
  state_default :: int

definition user_level :: "PowerLevels \<Rightarrow> string \<Rightarrow> int" where
  "user_level pl user_id = (case users_levels pl user_id of None \<Rightarrow> users_default pl | Some l \<Rightarrow> l)"

definition state_level :: "PowerLevels \<Rightarrow> string \<Rightarrow> int" where
  "state_level pl event_type =
     (case events_levels pl event_type of None \<Rightarrow> state_default pl | Some l \<Rightarrow> l)"

text \<open>An event type is written by its wire name, the value of the library's
  \<^verbatim>\<open>to_string(EventType)\<close>.\<close>

type_synonym EventType = string

definition RoomPowerLevels :: EventType where
  "RoomPowerLevels = ''m.room.power_levels''"

text \<open>A timeline event is opaque here. The value stored for a message is the JSON object
  \<^verbatim>\<open>{"event": ..., "token": ...}\<close>: \<open>MsgNotJson\<close> when \<^verbatim>\<open>json::parse\<close> throws; a
  member is \<open>None\<close> when the object does not have it, \<open>Some Malformed\<close> when converting it
  throws (\<^verbatim>\<open>from_json\<close> for the event, \<^verbatim>\<open>get<std::string>\<close> for the token). The key of a
  message is the decimal string of the event's timestamp and is written as the number.\<close>

type_synonym TimelineEvent = string

datatype message_json =
  MsgNotJson
| MsgObject "TimelineEvent stored option" "string stored option"


text \<open>A read receipt key is the pair \<^verbatim>\<open>{event_id, room_id}\<close>, stored as its JSON text. The
  receipts of one event are a \<^verbatim>\<open>std::map<std::string, uint64_t>\<close> from user to timestamp:
  the list of its entries in key order.\<close>

type_synonym ReadReceiptKey = "string \<times> string"

text \<open>A key of the pending receipts table is a text. \<open>Dumped k\<close> is the text
  \<^verbatim>\<open>json(k).dump()\<close>, the one that \<^verbatim>\<open>addPendingReceipt\<close> writes and that
  \<^verbatim>\<open>removePendingReceipt\<close> deletes; \<^verbatim>\<open>json::parse\<close> makes \<open>k\<close> of it. \<open>OtherText p\<close> is a key
  with any other text, and \<open>p\<close> is what \<^verbatim>\<open>json::parse\<close> makes of it: such a key can parse
  to a pair \<open>k\<close> and still is not the text that is deleted for \<open>k\<close>.\<close>

datatype pending_key = Dumped ReadReceiptKey | OtherText "ReadReceiptKey stored"

type_synonym user_receipts = "(string \<times> 64 word) list"

type_synonym CachedReceipts = "(64 word \<times> string) list"

type_synonym Receipts = "(string \<times> user_receipts) list"

subsection \<open>The cache object\<close>

text \<open>The tables of one cache and the in-memory session mirrors. The per-room tables
  (\<^verbatim>\<open>getStatesDb\<close>, \<^verbatim>\<open>getMessagesDb\<close>) are functions of the room id; a table that was
  never written is empty. The states table is modelled at the one key that is read as a
  power-levels event. The pending receipts table has empty values: it is the list of its
  keys.\<close>

record Cache =
  syncStateDb :: "string \<rightharpoonup> string"
  roomsDb :: "(string, RoomInfo stored) dbi"
  mediaDb :: "string \<rightharpoonup> string"
  readReceiptsDb :: "ReadReceiptKey \<rightharpoonup> user_receipts stored"
  pendingReceiptsDb :: "pending_key list"
  statesDb :: "string \<Rightarrow> string \<rightharpoonup> PowerLevels stored"
  messagesDb :: "string \<Rightarrow> (nat, message_json) dbi"
  inboundMegolmSessionDb :: "(string, OlmInboundGroupSession stored) dbi"
  outboundMegolmSessionDb :: "(string, outbound_json) dbi"
  group_inbound_sessions :: "string \<rightharpoonup> OlmInboundGroupSession option"
  group_outbound_session_data :: "string \<rightharpoonup> OutboundGroupSessionData"
  group_outbound_sessions :: "string \<rightharpoonup> OlmOutboundGroupSession option"

text \<open>The cache after \<^verbatim>\<open>setup()\<close> on a new directory: every table is created empty.\<close>

definition fresh :: Cache where
  "fresh = \<lparr>syncStateDb = Map.empty, roomsDb = [], mediaDb = Map.empty,
     readReceiptsDb = Map.empty, pendingReceiptsDb = [], statesDb = (\<lambda>_. Map.empty),
     messagesDb = (\<lambda>_. []), inboundMegolmSessionDb = [], outboundMegolmSessionDb = [],
     group_inbound_sessions = Map.empty, group_outbound_session_data = Map.empty,
     group_outbound_sessions = Map.empty\<rparr>"

text \<open>\<^verbatim>\<open>std::map::emplace\<close> on a map kept in key order: an existing key keeps its value.\<close>

fun map_emplace :: "'k::linorder \<Rightarrow> 'v \<Rightarrow> ('k \<times> 'v) list \<Rightarrow> ('k \<times> 'v) list" where
  "map_emplace k v [] = [(k, v)]"
| "map_emplace k v ((k', v') # m) =
     (if k = k' then (k', v') # m
      else if k < k' then (k, v) # (k', v') # m
      else (k', v') # map_emplace k v m)"

text \<open>\<^verbatim>\<open>std::multimap::emplace\<close> with the comparison \<open>cmp\<close>: the new element goes
  behind the elements that do not come after it (the upper bound of its key).\<close>

fun multimap_emplace ::
  "('k \<Rightarrow> 'k \<Rightarrow> bool) \<Rightarrow> 'k \<Rightarrow> 'v \<Rightarrow> ('k \<times> 'v) list \<Rightarrow> ('k \<times> 'v) list" where
  "multimap_emplace cmp k v [] = [(k, v)]"
| "multimap_emplace cmp k v ((k', v') # m) =
     (if cmp k k' then (k, v) # (k', v') # m
      else (k', v') # multimap_emplace cmp k v m)"

text \<open>\<^verbatim>\<open>std::map::operator[]\<close>: a missing key is entered with a value-initialised
  element first.\<close>

definition subscript :: "('k \<rightharpoonup> 'v) \<Rightarrow> 'k \<Rightarrow> 'v \<Rightarrow> 'v \<times> ('k \<rightharpoonup> 'v)" where
  "subscript m k dflt = (case m k of None \<Rightarrow> (dflt, m(k \<mapsto> dflt)) | Some v \<Rightarrow> (v, m))"

section \<open>Format version (lines 616-653)\<close>

definition isFormatValid :: "Cache \<Rightarrow> bool" where
  "isFormatValid c =
     (case syncStateDb c CACHE_FORMAT_VERSION_KEY of
        None \<Rightarrow> True
      | Some stored_version \<Rightarrow>
          if stored_version \<noteq> CURRENT_CACHE_FORMAT_VERSION then False else True)"

definition setCurrentFormat :: "Cache \<Rightarrow> Cache" where
  "setCurrentFormat c =
     c\<lparr>syncStateDb := (syncStateDb c)(CACHE_FORMAT_VERSION_KEY \<mapsto> CURRENT_CACHE_FORMAT_VERSION)\<rparr>"

section \<open>Group sessions (lines 240-323)\<close>



definition outboundMegolmSessionExists :: "Cache \<Rightarrow> string \<Rightarrow> bool" where
  "outboundMegolmSessionExists c room_id =
     (group_outbound_sessions c room_id \<noteq> None \<and> group_outbound_session_data c room_id \<noteq> None)"

text \<open>\<^verbatim>\<open>pickle\<close> dereferences the session pointer it is given.\<close>

definition pickle :: "'s option \<Rightarrow> error + 's stored" where
  "pickle p = (case p of None \<Rightarrow> Inl null_dereference | Some s \<Rightarrow> Inr (Encoded s))"

definition updateOutboundMegolmSession :: "Cache \<Rightarrow> string \<Rightarrow> int \<Rightarrow> error + Cache" where
  "updateOutboundMegolmSession c room_id new_index =
     (if \<not> outboundMegolmSessionExists c room_id then Inr c
      else
        let (data, dm) = subscript (group_outbound_session_data c) room_id
                           default_OutboundGroupSessionData;
            (session, sm) = subscript (group_outbound_sessions c) room_id None;
            data = data\<lparr>message_index := new_index\<rparr>;
            dm = dm(room_id \<mapsto> data)
        in case pickle session of
             Inl e \<Rightarrow> Inl e
           | Inr pickled \<Rightarrow>
               Inr (c\<lparr>outboundMegolmSessionDb :=
                        dbi_put room_id (JsonObject (Some data) (Some pickled))
                          (outboundMegolmSessionDb c),
                      group_outbound_session_data := dm,
                      group_outbound_sessions := sm\<rparr>))"

section \<open>Restoring the sessions (lines 396-444)\<close>

text \<open>\<^verbatim>\<open>unpickle\<close> belongs to the matrix client library: it throws when the olm library
  rejects the pickle, and returns the (non-null) session otherwise.\<close>

definition unpickle :: "'s stored \<Rightarrow> error + 's" where
  "unpickle pickled = (case pickled of Malformed \<Rightarrow> Inl olm_exception | Encoded s \<Rightarrow> Inr s)"

text \<open>The mirrors are members of the cache: what a loop has entered before an exception
  leaves it stays entered. Each loop returns the cache it reached and the exception that
  ended it, if any. The first loop has no handler; the second one catches
  \<^verbatim>\<open>nlohmann::json::exception\<close>, logs and goes on with the next entry.\<close>

fun restore_inbound ::
  "(string, OlmInboundGroupSession stored) dbi \<Rightarrow> Cache \<Rightarrow> Cache \<times> error option" where
  "restore_inbound [] c = (c, None)"
| "restore_inbound ((key, val) # rest) c =
     (case unpickle val of
        Inl e \<Rightarrow> (c, Some e)
      | Inr session \<Rightarrow>
          restore_inbound rest
            (c\<lparr>group_inbound_sessions := (group_inbound_sessions c)(key \<mapsto> Some session)\<rparr>))"

fun restore_outbound ::
  "(string, outbound_json) dbi \<Rightarrow> Cache \<Rightarrow> Cache \<times> error option" where
  "restore_outbound [] c = (c, None)"
| "restore_outbound ((key, NotJson) # rest) c = restore_outbound rest c"
| "restore_outbound ((key, JsonObject None s) # rest) c = restore_outbound rest c"
| "restore_outbound ((key, JsonObject (Some data) s) # rest) c =
     (let c = c\<lparr>group_outbound_session_data := (group_outbound_session_data c)(key \<mapsto> data)\<rparr>
      in case s of
           None \<Rightarrow> restore_outbound rest c
         | Some pickled \<Rightarrow>
             (case unpickle pickled of
                Inl e \<Rightarrow> (c, Some e)
              | Inr session \<Rightarrow>
                  restore_outbound rest
                    (c\<lparr>group_outbound_sessions :=
                         (group_outbound_sessions c)(key \<mapsto> Some session)\<rparr>)))"

definition restoreSessions :: "Cache \<Rightarrow> Cache \<times> error option" where
  "restoreSessions c =
     (case restore_inbound (inboundMegolmSessionDb c) c of
        (c, Some e) \<Rightarrow> (c, Some e)
      | (c, None) \<Rightarrow> restore_outbound (outboundMegolmSessionDb c) c)"

section \<open>Read receipts (lines 655-842)\<close>

text \<open>\<^verbatim>\<open>receipt = json::parse(key)\<close> on a key of the pending receipts table.\<close>

fun parse_key :: "pending_key \<Rightarrow> ReadReceiptKey stored" where
  "parse_key (Dumped k) = Encoded k"
| "parse_key (OtherText p) = p"

fun pendingReceiptsEvents_loop :: "pending_key list \<Rightarrow> string \<Rightarrow> string list" where
  "pendingReceiptsEvents_loop [] room_id = []"
| "pendingReceiptsEvents_loop (key # rest) room_id =
     (case parse_key key of
        Malformed \<Rightarrow> pendingReceiptsEvents_loop rest room_id
      | Encoded (event_id, room) \<Rightarrow>
          if room = room_id then event_id # pendingReceiptsEvents_loop rest room_id
          else pendingReceiptsEvents_loop rest room_id)"

definition pendingReceiptsEvents :: "Cache \<Rightarrow> string \<Rightarrow> string list" where
  "pendingReceiptsEvents c room_id = pendingReceiptsEvents_loop (pendingReceiptsDb c) room_id"

text \<open>\<^verbatim>\<open>lmdb::dbi_del\<close> with the key \<^verbatim>\<open>json(receipt_key).dump()\<close>: the one key with this
  text goes, every other key stays.\<close>

definition removePendingReceipt :: "Cache \<Rightarrow> string \<Rightarrow> string \<Rightarrow> Cache" where
  "removePendingReceipt c room_id event_id =
     c\<lparr>pendingReceiptsDb := filter (\<lambda>k. k \<noteq> Dumped (event_id, room_id)) (pendingReceiptsDb c)\<rparr>"

text \<open>\<^verbatim>\<open>CachedReceipts\<close> is a multimap from timestamp to user under \<^verbatim>\<open>std::greater\<close>.\<close>

fun readReceipts_loop :: "user_receipts \<Rightarrow> CachedReceipts \<Rightarrow> CachedReceipts" where
  "readReceipts_loop [] receipts = receipts"
| "readReceipts_loop ((user, ts) # vs) receipts =
     readReceipts_loop vs (multimap_emplace (\<lambda>a b. b < a) ts user receipts)"

definition readReceipts :: "Cache \<Rightarrow> string \<Rightarrow> string \<Rightarrow> error + CachedReceipts" where
  "readReceipts c event_id room_id =
     (case readReceiptsDb c (event_id, room_id) of
        None \<Rightarrow> Inr []
      | Some Malformed \<Rightarrow> Inl json_exception
      | Some (Encoded vs) \<Rightarrow> Inr (readReceipts_loop vs []))"

fun filterReadEvents ::
  "Cache \<Rightarrow> string \<Rightarrow> string list \<Rightarrow> string \<Rightarrow> error + string list" where
  "filterReadEvents c room_id [] excluded_user = Inr []"
| "filterReadEvents c room_id (event # event_ids) excluded_user =
     (case readReceipts c event room_id of
        Inl e \<Rightarrow> Inl e
      | Inr receipts \<Rightarrow>
          (case filterReadEvents c room_id event_ids excluded_user of
             Inl e \<Rightarrow> Inl e
           | Inr read_events \<Rightarrow>
               if length receipts = 0 then Inr read_events
               else if length receipts = 1 \<and> snd (hd receipts) = excluded_user
                 then Inr read_events
               else Inr (event # read_events)))"

fun merge_receipts :: "user_receipts \<Rightarrow> user_receipts \<Rightarrow> user_receipts" where
  "merge_receipts [] saved_receipts = saved_receipts"
| "merge_receipts ((user, ts) # event_receipts) saved_receipts =
     merge_receipts event_receipts (map_emplace user ts saved_receipts)"

fun updateReadReceipt :: "Cache \<Rightarrow> string \<Rightarrow> Receipts \<Rightarrow> error + Cache" where
  "updateReadReceipt c room_id [] = Inr c"
| "updateReadReceipt c room_id ((event_id, event_receipts) # receipts) =
     (case readReceiptsDb c (event_id, room_id) of
        Some Malformed \<Rightarrow> Inl json_exception
      | prev \<Rightarrow>
          let saved_receipts = (case prev of Some (Encoded m) \<Rightarrow> m | _ \<Rightarrow> []);
              merged_receipts = merge_receipts event_receipts saved_receipts
          in updateReadReceipt
               (c\<lparr>readReceiptsDb := (readReceiptsDb c)((event_id, room_id) \<mapsto> Encoded merged_receipts)\<rparr>)
               room_id receipts)"

text \<open>The local user comes from the settings (\<^verbatim>\<open>auth/user_id\<close>) and is a parameter. The
  result is the cache and the signal \<^verbatim>\<open>newReadReceipts(room_id, matches)\<close>, if emitted.\<close>

definition notifyForReadReceipts ::
  "string \<Rightarrow> Cache \<Rightarrow> string \<Rightarrow> error + Cache \<times> (string \<times> string list) option" where
  "notifyForReadReceipts local_user c room_id =
     (case filterReadEvents c room_id (pendingReceiptsEvents c room_id) local_user of
        Inl e \<Rightarrow> Inl e
      | Inr matches \<Rightarrow>
          Inr (fold (\<lambda>m c. removePendingReceipt c room_id m) matches c,
               if matches \<noteq> [] then Some (room_id, matches) else None))"

section \<open>Timeline messages and retention (lines 1085-1116, 1792-1841)\<close>










section \<open>Searching rooms (lines 487-506, 1606-1643)\<close>

text \<open>Modelled from the spec: \<^verbatim>\<open>utils::levenshtein_distance\<close> (Utils.cpp is not among the
  sources), ``edit distance between the query and the room name'': the least number of
  insertions, deletions and substitutions of one character that turn one string into the
  other.\<close>

fun levenshtein_distance :: "string \<Rightarrow> string \<Rightarrow> int" where
  "levenshtein_distance [] s2 = int (length s2)"
| "levenshtein_distance (a # s1) [] = int (length (a # s1))"
| "levenshtein_distance (a # s1) (b # s2) =
     min (min (levenshtein_distance s1 (b # s2) + 1) (levenshtein_distance (a # s1) s2 + 1))
         (levenshtein_distance s1 s2 + (if a = b then 0 else 1))"

text \<open>\<^verbatim>\<open>QString::toLower\<close> belongs to Qt and lower-cases every Unicode capital. The search
  takes the whole of \<^verbatim>\<open>QString::fromStdString(s).toLower().toStdString()\<close> as the parameter
  \<open>toLower\<close>, a function from byte strings to byte strings. Where a concrete function is
  needed, on names of ASCII characters only, \<open>toLower_ascii\<close> is what it does there.\<close>

definition toLower_ascii :: "string \<Rightarrow> string" where
  "toLower_ascii s = map (\<lambda>ch. if CHR ''A'' \<le> ch \<and> ch \<le> CHR ''Z''
                               then char_of (of_char ch + (32::nat)) else ch) s"

text \<open>\<^verbatim>\<open>Cache::image\<close>; an image is written as the bytes it is made from.\<close>

definition image_data :: "Cache \<Rightarrow> string \<Rightarrow> string" where
  "image_data c url =
     (if url = [] then []
      else case mediaDb c url of None \<Rightarrow> [] | Some img \<Rightarrow> img)"

text \<open>\<^verbatim>\<open>utils::levenshtein_distance\<close> is defined in Utils.cpp, outside this file: the
  search takes it as the parameter \<open>distance\<close>. The function \<open>levenshtein_distance\<close>
  above is used where a concrete one is needed.\<close>

fun searchRooms_loop ::
  "(string \<Rightarrow> string) \<Rightarrow> (string \<Rightarrow> string \<Rightarrow> int) \<Rightarrow> string
     \<Rightarrow> (string, RoomInfo stored) dbi
     \<Rightarrow> (int \<times> string \<times> RoomInfo) list \<Rightarrow> error + (int \<times> string \<times> RoomInfo) list" where
  "searchRooms_loop toLower distance query [] items = Inr items"
| "searchRooms_loop toLower distance query ((room_id, Malformed) # rest) items =
     Inl json_exception"
| "searchRooms_loop toLower distance query ((room_id, Encoded tmp) # rest) items =
     (let score = distance query (toLower (name tmp))
      in searchRooms_loop toLower distance query rest
           (multimap_emplace (<) score (room_id, tmp) items))"

text \<open>To speak about the ranking: the rooms of the table that parse, each with its score,
  in the order of the walk.\<close>

fun scored ::
  "(string \<Rightarrow> string) \<Rightarrow> (string \<Rightarrow> string \<Rightarrow> int) \<Rightarrow> string
     \<Rightarrow> (string, RoomInfo stored) dbi \<Rightarrow> (int \<times> string \<times> RoomInfo) list" where
  "scored toLower distance query [] = []"
| "scored toLower distance query ((room_id, Encoded tmp) # rest) =
     (distance query (toLower (name tmp)), room_id, tmp) # scored toLower distance query rest"
| "scored toLower distance query ((room_id, Malformed) # rest) =
     scored toLower distance query rest"

definition searchRooms ::
  "(string \<Rightarrow> string) \<Rightarrow> (string \<Rightarrow> string \<Rightarrow> int) \<Rightarrow> Cache \<Rightarrow> string \<Rightarrow> 8 word
     \<Rightarrow> error + RoomSearchResult list" where
  "searchRooms toLower distance c query max_items =
     (case searchRooms_loop toLower distance query (roomsDb c) [] of
        Inl e \<Rightarrow> Inl e
      | Inr items \<Rightarrow>
          let stop = (if length items \<ge> unat max_items then unat max_items
                      else if length items > 0 then length items
                      else 0)
          in Inr (map (\<lambda>(score, room_id, info).
                        \<lparr>result_room_id = room_id, result_info = info,
                         result_img = image_data c (avatar_url info)\<rparr>)
                      (take stop items)))"

section \<open>Power levels (lines 1853-1890)\<close>

text \<open>The two levels are \<^verbatim>\<open>uint16_t\<close>; an integer level is narrowed modulo \<open>2 ^ 16\<close>. A
  power-levels event that does not parse is logged and leaves both at their initial
  values.\<close>

fun min_event_level_loop :: "PowerLevels \<Rightarrow> EventType list \<Rightarrow> 16 word \<Rightarrow> 16 word" where
  "min_event_level_loop content [] min_event_level = min_event_level"
| "min_event_level_loop content (ty # eventTypes) min_event_level =
     min_event_level_loop content eventTypes
       (min min_event_level (word_of_int (state_level content ty)))"

definition hasEnoughPowerLevel :: "Cache \<Rightarrow> EventType list \<Rightarrow> string \<Rightarrow> string \<Rightarrow> bool" where
  "hasEnoughPowerLevel c eventTypes room_id user_id =
     (let min_event_level = (65535 :: 16 word);
          user_lvl = (0 :: 16 word);
          (user_lvl, min_event_level) =
            (case statesDb c room_id RoomPowerLevels of
               None \<Rightarrow> (user_lvl, min_event_level)
             | Some Malformed \<Rightarrow> (user_lvl, min_event_level)
             | Some (Encoded content) \<Rightarrow>
                 (word_of_int (user_level content user_id),
                  min_event_level_loop content eventTypes min_event_level))
      in user_lvl \<ge> min_event_level)"

section \<open>Properties\<close>

lemma dbi_get_dbi_put_same: "dbi_get (dbi_put k v db) k = Some v"
  by (induction db) (auto simp: dbi_get_def)

lemma dbi_get_dbi_put_other: "k' \<noteq> k \<Longrightarrow> dbi_get (dbi_put k v db) k' = dbi_get db k'"
  by (induction db) (auto simp: dbi_get_def)

text \<open>C9: \<open>isFormatValid\<close> holds when no version marker is stored and when the stored
  marker is the current version string, it fails for every other stored marker, and it
  holds after \<open>setCurrentFormat\<close>.\<close>

theorem isFormatValid_spec:
  "(syncStateDb c CACHE_FORMAT_VERSION_KEY = None \<longrightarrow> isFormatValid c) \<and>
   (syncStateDb c CACHE_FORMAT_VERSION_KEY = Some CURRENT_CACHE_FORMAT_VERSION \<longrightarrow> isFormatValid c) \<and>
   (\<forall>v. syncStateDb c CACHE_FORMAT_VERSION_KEY = Some v \<and> v \<noteq> CURRENT_CACHE_FORMAT_VERSION
        \<longrightarrow> \<not> isFormatValid c) \<and>
   isFormatValid (setCurrentFormat c)"
  by (simp add: isFormatValid_def setCurrentFormat_def)

theorem isFormatValid_spec_witness:
  "isFormatValid fresh \<and>
   isFormatValid (fresh\<lparr>syncStateDb := [CACHE_FORMAT_VERSION_KEY \<mapsto> CURRENT_CACHE_FORMAT_VERSION]\<rparr>) \<and>
   \<not> isFormatValid (fresh\<lparr>syncStateDb := [CACHE_FORMAT_VERSION_KEY \<mapsto> ''2017.12.01'']\<rparr>) \<and>
   isFormatValid (setCurrentFormat (fresh\<lparr>syncStateDb := [CACHE_FORMAT_VERSION_KEY \<mapsto> ''2017.12.01'']\<rparr>))"
  using isFormatValid_spec [of fresh]
    isFormatValid_spec [of "fresh\<lparr>syncStateDb := [CACHE_FORMAT_VERSION_KEY \<mapsto> CURRENT_CACHE_FORMAT_VERSION]\<rparr>"]
    isFormatValid_spec [of "fresh\<lparr>syncStateDb := [CACHE_FORMAT_VERSION_KEY \<mapsto> ''2017.12.01'']\<rparr>"]
  by (simp add: fresh_def CURRENT_CACHE_FORMAT_VERSION_def)



text \<open>C8: \<open>updateOutboundMegolmSession\<close> on a room for which \<open>outboundMegolmSessionExists\<close>
  fails returns with the cache unchanged, the table on disk and the mirrors included.
  When the room has a session and its data, the call succeeds, and the message index in
  the metadata written to disk is the one now in the mirror, the new index.\<close>

theorem updateOutboundMegolmSession_spec:
  "(\<not> outboundMegolmSessionExists c room_id \<longrightarrow>
      updateOutboundMegolmSession c room_id new_index = Inr c) \<and>
   (\<forall>s d. group_outbound_sessions c room_id = Some (Some s) \<and>
          group_outbound_session_data c room_id = Some d \<longrightarrow>
      (case updateOutboundMegolmSession c room_id new_index of
         Inl e \<Rightarrow> False
       | Inr c' \<Rightarrow>
           group_outbound_session_data c' room_id = Some (d\<lparr>message_index := new_index\<rparr>) \<and>
           group_outbound_sessions c' room_id = Some (Some s) \<and>
           dbi_get (outboundMegolmSessionDb c') room_id =
             Some (JsonObject (Some (d\<lparr>message_index := new_index\<rparr>)) (Some (Encoded s)))))"
  by (auto simp: updateOutboundMegolmSession_def outboundMegolmSessionExists_def subscript_def
        pickle_def dbi_get_dbi_put_same Let_def)

theorem updateOutboundMegolmSession_spec_witness:
  "updateOutboundMegolmSession fresh ''!r:x.org'' 7 = Inr fresh \<and>
   (case updateOutboundMegolmSession
      (fresh\<lparr>group_outbound_session_data := [''!r:x.org'' \<mapsto> \<lparr>message_index = 3, other_members = ''m''\<rparr>],
             group_outbound_sessions := [''!r:x.org'' \<mapsto> Some (OutboundSession ''s'')]\<rparr>) ''!r:x.org'' 7 of
      Inl e \<Rightarrow> False
    | Inr c' \<Rightarrow>
      group_outbound_session_data c' ''!r:x.org'' = Some \<lparr>message_index = 7, other_members = ''m''\<rparr> \<and>
      group_outbound_sessions c' ''!r:x.org'' = Some (Some (OutboundSession ''s'')) \<and>
      dbi_get (outboundMegolmSessionDb c') ''!r:x.org'' =
        Some (JsonObject (Some \<lparr>message_index = 7, other_members = ''m''\<rparr>) (Some (Encoded (OutboundSession ''s'')))))"
  using updateOutboundMegolmSession_spec [of fresh "''!r:x.org''" 7]
    updateOutboundMegolmSession_spec [of "fresh\<lparr>group_outbound_session_data := [''!r:x.org'' \<mapsto> \<lparr>message_index = 3, other_members = ''m''\<rparr>],
             group_outbound_sessions := [''!r:x.org'' \<mapsto> Some (OutboundSession ''s'')]\<rparr>" "''!r:x.org''" 7]
  by (simp add: fresh_def outboundMegolmSessionExists_def split: sum.splits)

subsection \<open>Read receipts\<close>

lemma length_multimap_emplace: "length (multimap_emplace cmp k v m) = Suc (length m)"
  by (induction m) auto

lemma length_readReceipts_loop: "length (readReceipts_loop vs r) = length vs + length r"
  by (induction vs arbitrary: r) (auto simp: length_multimap_emplace)

lemma filterReadEvents_step:
  assumes "readReceiptsDb c (ev, room_id) \<noteq> Some Malformed"
  shows "(case readReceipts c ev room_id of
            Inl e \<Rightarrow> False
          | Inr receipts \<Rightarrow>
              (\<not> (length receipts = 0 \<or> length receipts = 1 \<and> snd (hd receipts) = excluded_user)) =
              (case readReceiptsDb c (ev, room_id) of
                 Some (Encoded vs) \<Rightarrow> vs \<noteq> [] \<and> map fst vs \<noteq> [excluded_user]
               | _ \<Rightarrow> False))"
proof (cases "readReceiptsDb c (ev, room_id)")
  case None
  then show ?thesis by (simp add: readReceipts_def)
next
  case (Some st)
  with assms obtain vs where st: "st = Encoded vs" by (cases st) auto
  show ?thesis
  proof (cases vs)
    case Nil
    with Some st show ?thesis by (simp add: readReceipts_def)
  next
    case (Cons p ps)
    obtain u t where p: "p = (u, t)" by (cases p)
    show ?thesis
    proof (cases ps)
      case Nil
      with Some st Cons p show ?thesis by (simp add: readReceipts_def)
    next
      case (Cons q qs)
      have "length (readReceipts_loop vs []) = length vs"
        by (simp add: length_readReceipts_loop)
      with Some st \<open>vs = p # ps\<close> Cons show ?thesis
        by (simp add: readReceipts_def del: readReceipts_loop.simps)
    qed
  qed
qed

lemma filterReadEvents_eq:
  assumes "\<forall>ev\<in>set event_ids. readReceiptsDb c (ev, room_id) \<noteq> Some Malformed"
  shows "filterReadEvents c room_id event_ids excluded_user =
         Inr (filter (\<lambda>ev. case readReceiptsDb c (ev, room_id) of
                             Some (Encoded vs) \<Rightarrow> vs \<noteq> [] \<and> map fst vs \<noteq> [excluded_user]
                           | _ \<Rightarrow> False) event_ids)"
  using assms
proof (induction event_ids)
  case Nil
  then show ?case by simp
next
  case (Cons ev evs)
  from Cons.prems have ok: "readReceiptsDb c (ev, room_id) \<noteq> Some Malformed" by simp
  from Cons have IH: "filterReadEvents c room_id evs excluded_user =
         Inr (filter (\<lambda>ev. case readReceiptsDb c (ev, room_id) of
                             Some (Encoded vs) \<Rightarrow> vs \<noteq> [] \<and> map fst vs \<noteq> [excluded_user]
                           | _ \<Rightarrow> False) evs)" by simp
  from filterReadEvents_step [OF ok, of excluded_user] IH show ?case
    by (auto split: sum.splits)
qed

lemma filterReadEvents_throws:
  assumes "\<exists>ev\<in>set event_ids. readReceiptsDb c (ev, room_id) = Some Malformed"
  shows "filterReadEvents c room_id event_ids excluded_user = Inl json_exception"
  using assms
proof (induction event_ids)
  case Nil
  then show ?case by simp
next
  case (Cons ev evs)
  show ?case
  proof (cases "readReceiptsDb c (ev, room_id) = Some Malformed")
    case True
    then show ?thesis by (simp add: readReceipts_def)
  next
    case False
    with Cons.prems have "\<exists>ev\<in>set evs. readReceiptsDb c (ev, room_id) = Some Malformed" by auto
    with Cons.IH have "filterReadEvents c room_id evs excluded_user = Inl json_exception" by simp
    then show ?thesis
      by (auto simp: readReceipts_def split: sum.splits option.splits stored.splits)
  qed
qed

lemma fold_removePendingReceipt:
  "fold (\<lambda>m c. removePendingReceipt c room_id m) ms c =
   c\<lparr>pendingReceiptsDb := filter (\<lambda>k. \<forall>m\<in>set ms. k \<noteq> Dumped (m, room_id)) (pendingReceiptsDb c)\<rparr>"
proof (induction ms arbitrary: c)
  case Nil
  then show ?case by simp
next
  case (Cons m ms)
  have "filter (\<lambda>k. \<forall>m\<in>set ms. k \<noteq> Dumped (m, room_id)) (filter (\<lambda>k. k \<noteq> Dumped (m, room_id)) ks)
        = filter (\<lambda>k. \<forall>m\<in>set (m # ms). k \<noteq> Dumped (m, room_id)) ks" for ks
    by (induction ks) auto
  with Cons show ?case by (simp add: removePendingReceipt_def)
qed

text \<open>When every key of the room that parses has the text that \<^verbatim>\<open>removePendingReceipt\<close>
  deletes, deleting the keys of the events \<open>ms\<close> takes exactly these events from what
  \<^verbatim>\<open>pendingReceiptsEvents\<close> lists.\<close>

lemma pendingReceiptsEvents_loop_filter:
  assumes "\<forall>e. OtherText (Encoded (e, room_id)) \<notin> set ks"
  shows "pendingReceiptsEvents_loop (filter (\<lambda>k. \<forall>m\<in>set ms. k \<noteq> Dumped (m, room_id)) ks) room_id =
         filter (\<lambda>ev. ev \<notin> set ms) (pendingReceiptsEvents_loop ks room_id)"
  using assms
proof (induction ks)
  case Nil
  then show ?case by simp
next
  case (Cons key ks)
  from Cons.prems have rest: "\<forall>e. OtherText (Encoded (e, room_id)) \<notin> set ks" by simp
  note IH = Cons.IH [OF rest]
  show ?case
  proof (cases key)
    case (Dumped k)
    then show ?thesis using IH by (cases k) auto
  next
    case (OtherText p)
    show ?thesis
    proof (cases p)
      case Malformed
      with OtherText IH show ?thesis by simp
    next
      case (Encoded k)
      obtain e room where k: "k = (e, room)" by (cases k)
      with Cons.prems OtherText Encoded have "room \<noteq> room_id" by auto
      with OtherText Encoded k IH show ?thesis by simp
    qed
  qed
qed


text \<open>C7 (as amended): in the read-receipt notification pass an event counts as read
  exactly when its stored receipt set is not empty and is not a single entry of the local
  (excluded) user. Provided the stored receipts of the pending events parse,
  \<open>filterReadEvents\<close> keeps exactly those events, and \<open>notifyForReadReceipts\<close> signals them
  when there are any, deletes from the pending table exactly the keys whose text is the
  JSON dump of such an event with the room, and changes nothing else. So the events that
  are still pending afterwards are the ones that do not count as read, provided every
  pending key of the room that parses has the text of the dump of its event and room (the
  text under which a pending receipt is added); a key of another text that parses to an
  event and the room stays in the table, whether the event counts as read or not.\<close>

theorem notifyForReadReceipts_spec:
  assumes "\<forall>ev\<in>set (pendingReceiptsEvents c room_id). readReceiptsDb c (ev, room_id) \<noteq> Some Malformed"
  shows "filterReadEvents c room_id (pendingReceiptsEvents c room_id) local_user =
           Inr (filter (\<lambda>ev. case readReceiptsDb c (ev, room_id) of
                               Some (Encoded vs) \<Rightarrow> vs \<noteq> [] \<and> map fst vs \<noteq> [local_user]
                             | _ \<Rightarrow> False) (pendingReceiptsEvents c room_id)) \<and>
         (case notifyForReadReceipts local_user c room_id of
            Inl e \<Rightarrow> False
          | Inr (c', signal) \<Rightarrow>
              (let matches = filter (\<lambda>ev. case readReceiptsDb c (ev, room_id) of
                               Some (Encoded vs) \<Rightarrow> vs \<noteq> [] \<and> map fst vs \<noteq> [local_user]
                             | _ \<Rightarrow> False) (pendingReceiptsEvents c room_id)
               in c' = c\<lparr>pendingReceiptsDb :=
                          filter (\<lambda>k. \<forall>m\<in>set matches. k \<noteq> Dumped (m, room_id)) (pendingReceiptsDb c)\<rparr> \<and>
                  signal = (if matches = [] then None else Some (room_id, matches)) \<and>
                  (\<forall>e. OtherText (Encoded (e, room_id)) \<in> set (pendingReceiptsDb c)
                         \<longrightarrow> OtherText (Encoded (e, room_id)) \<in> set (pendingReceiptsDb c') \<and>
                             e \<in> set (pendingReceiptsEvents c' room_id)) \<and>
                  ((\<forall>e. OtherText (Encoded (e, room_id)) \<notin> set (pendingReceiptsDb c))
                     \<longrightarrow> pendingReceiptsEvents c' room_id =
                           filter (\<lambda>ev. ev \<notin> set matches) (pendingReceiptsEvents c room_id))))"
proof -
  define matches where "matches = filter (\<lambda>ev. case readReceiptsDb c (ev, room_id) of
                               Some (Encoded vs) \<Rightarrow> vs \<noteq> [] \<and> map fst vs \<noteq> [local_user]
                             | _ \<Rightarrow> False) (pendingReceiptsEvents c room_id)"
  define c' where "c' = c\<lparr>pendingReceiptsDb :=
     filter (\<lambda>k. \<forall>m\<in>set matches. k \<noteq> Dumped (m, room_id)) (pendingReceiptsDb c)\<rparr>"
  have kept: "filterReadEvents c room_id (pendingReceiptsEvents c room_id) local_user = Inr matches"
    unfolding matches_def by (rule filterReadEvents_eq [OF assms])
  have res: "notifyForReadReceipts local_user c room_id =
               Inr (c', if matches \<noteq> [] then Some (room_id, matches) else None)"
    by (simp add: notifyForReadReceipts_def kept fold_removePendingReceipt c'_def)
  have stay: "OtherText (Encoded (e, room_id)) \<in> set (pendingReceiptsDb c')"
    if "OtherText (Encoded (e, room_id)) \<in> set (pendingReceiptsDb c)" for e
    using that by (simp add: c'_def)
  have listed: "e \<in> set (pendingReceiptsEvents_loop ks room_id)"
    if "OtherText (Encoded (e, room_id)) \<in> set ks" for e ks
    using that
  proof (induction ks)
    case Nil
    then show ?case by simp
  next
    case (Cons key ks)
    show ?case
    proof (cases "key = OtherText (Encoded (e, room_id))")
      case True
      then show ?thesis by simp
    next
      case False
      with Cons have "e \<in> set (pendingReceiptsEvents_loop ks room_id)" by simp
      then show ?thesis by (simp split: stored.splits prod.splits)
    qed
  qed
  have other: "\<forall>e. OtherText (Encoded (e, room_id)) \<in> set (pendingReceiptsDb c)
                 \<longrightarrow> OtherText (Encoded (e, room_id)) \<in> set (pendingReceiptsDb c') \<and>
                     e \<in> set (pendingReceiptsEvents c' room_id)"
    using stay listed by (simp add: pendingReceiptsEvents_def)
  have pend: "pendingReceiptsEvents c' room_id =
                filter (\<lambda>ev. ev \<notin> set matches) (pendingReceiptsEvents c room_id)"
    if "\<forall>e. OtherText (Encoded (e, room_id)) \<notin> set (pendingReceiptsDb c)"
    using pendingReceiptsEvents_loop_filter [OF that, of matches]
    by (simp add: c'_def pendingReceiptsEvents_def)
  from kept res other pend show ?thesis
    unfolding Let_def matches_def [symmetric] by (simp add: c'_def)
qed

theorem notifyForReadReceipts_spec_witness:
  "filterReadEvents
     (fresh\<lparr>pendingReceiptsDb := [Dumped (''$a'', ''!r''), Dumped (''$b'', ''!r''), OtherText Malformed,
                  Dumped (''$c'', ''!r''), Dumped (''$d'', ''!r''), Dumped (''$a'', ''!q''),
                  OtherText (Encoded (''$b'', ''!q''))],
            readReceiptsDb := [(''$a'', ''!r'') \<mapsto> Encoded [(''@me'', 5)],
                               (''$b'', ''!r'') \<mapsto> Encoded [(''@bob'', 6)],
                               (''$c'', ''!r'') \<mapsto> Encoded [(''@bob'', 6), (''@me'', 7)]]\<rparr>)
     ''!r'' [''$a'', ''$b'', ''$c'', ''$d''] ''@me'' = Inr [''$b'', ''$c''] \<and>
   notifyForReadReceipts ''@me''
     (fresh\<lparr>pendingReceiptsDb := [Dumped (''$a'', ''!r''), Dumped (''$b'', ''!r''), OtherText Malformed,
                  Dumped (''$c'', ''!r''), Dumped (''$d'', ''!r''), Dumped (''$a'', ''!q''),
                  OtherText (Encoded (''$b'', ''!q''))],
            readReceiptsDb := [(''$a'', ''!r'') \<mapsto> Encoded [(''@me'', 5)],
                               (''$b'', ''!r'') \<mapsto> Encoded [(''@bob'', 6)],
                               (''$c'', ''!r'') \<mapsto> Encoded [(''@bob'', 6), (''@me'', 7)]]\<rparr>)
     ''!r'' =
   Inr (fresh\<lparr>pendingReceiptsDb := [Dumped (''$a'', ''!r''), OtherText Malformed,
                  Dumped (''$d'', ''!r''), Dumped (''$a'', ''!q''),
                  OtherText (Encoded (''$b'', ''!q''))],
            readReceiptsDb := [(''$a'', ''!r'') \<mapsto> Encoded [(''@me'', 5)],
                               (''$b'', ''!r'') \<mapsto> Encoded [(''@bob'', 6)],
                               (''$c'', ''!r'') \<mapsto> Encoded [(''@bob'', 6), (''@me'', 7)]]\<rparr>,
        Some (''!r'', [''$b'', ''$c''])) \<and>
   pendingReceiptsEvents
     (fresh\<lparr>pendingReceiptsDb := [Dumped (''$a'', ''!r''), OtherText Malformed,
                  Dumped (''$d'', ''!r''), Dumped (''$a'', ''!q''),
                  OtherText (Encoded (''$b'', ''!q''))],
            readReceiptsDb := [(''$a'', ''!r'') \<mapsto> Encoded [(''@me'', 5)],
                               (''$b'', ''!r'') \<mapsto> Encoded [(''@bob'', 6)],
                               (''$c'', ''!r'') \<mapsto> Encoded [(''@bob'', 6), (''@me'', 7)]]\<rparr>)
     ''!r'' = [''$a'', ''$d'']"
  using notifyForReadReceipts_spec
    [of "fresh\<lparr>pendingReceiptsDb := [Dumped (''$a'', ''!r''), Dumped (''$b'', ''!r''), OtherText Malformed,
                  Dumped (''$c'', ''!r''), Dumped (''$d'', ''!r''), Dumped (''$a'', ''!q''),
                  OtherText (Encoded (''$b'', ''!q''))],
            readReceiptsDb := [(''$a'', ''!r'') \<mapsto> Encoded [(''@me'', 5)],
                               (''$b'', ''!r'') \<mapsto> Encoded [(''@bob'', 6)],
                               (''$c'', ''!r'') \<mapsto> Encoded [(''@bob'', 6), (''@me'', 7)]]\<rparr>"
        "''!r''" "''@me''"]
  by (simp add: fresh_def pendingReceiptsEvents_def split: sum.splits prod.splits)

text \<open>An event without any stored receipt is not a single entry of the local user, and
  still it is not kept, not removed from the pending table and not signalled. And an event
  read by another user, pending under a key that parses to it but is not the text of the
  dump, is signalled and stays in the pending table.\<close>

theorem filterReadEvents_cex:
  "readReceipts fresh ''$e'' ''!r'' = Inr [] \<and>
   filterReadEvents fresh ''!r'' [''$e''] ''@me'' = Inr [] \<and>
   notifyForReadReceipts ''@me'' (fresh\<lparr>pendingReceiptsDb := [Dumped (''$e'', ''!r'')]\<rparr>) ''!r''
     = Inr (fresh\<lparr>pendingReceiptsDb := [Dumped (''$e'', ''!r'')]\<rparr>, None) \<and>
   notifyForReadReceipts ''@me''
     (fresh\<lparr>pendingReceiptsDb := [OtherText (Encoded (''$b'', ''!r''))],
            readReceiptsDb := [(''$b'', ''!r'') \<mapsto> Encoded [(''@bob'', 6)]]\<rparr>) ''!r''
     = Inr (fresh\<lparr>pendingReceiptsDb := [OtherText (Encoded (''$b'', ''!r''))],
                  readReceiptsDb := [(''$b'', ''!r'') \<mapsto> Encoded [(''@bob'', 6)]]\<rparr>,
            Some (''!r'', [''$b'']))"
  by (simp add: fresh_def readReceipts_def notifyForReadReceipts_def pendingReceiptsEvents_def
      removePendingReceipt_def)

lemma map_emplace_twice: "map_emplace k v' (map_emplace k v m) = map_emplace k v m"
  by (induction m) auto

lemma map_of_map_emplace_new:
  "k \<notin> fst ` set m \<Longrightarrow> map_of (map_emplace k v m) k = Some v"
  by (induction m) auto

lemma set_map_emplace: "set m \<subseteq> set (map_emplace k v m)"
  by (induction m) auto

text \<open>C1 (as amended): merging the same \<open>{user: timestamp}\<close> entry twice into the stored
  receipt set of an event yields the same stored set as merging it once; merging
  \<open>{u: t1}\<close> and then \<open>{u: t2}\<close> yields the set stored after the first merge, whatever
  \<open>t2\<close> is: a user who has an entry keeps the stored timestamp (\<open>t1\<close> when the user had no
  entry before), and no stored entry is lost.\<close>

theorem updateReadReceipt_merge:
  assumes "readReceiptsDb c (event_id, room_id) \<noteq> Some Malformed"
  shows "case updateReadReceipt c room_id [(event_id, [(u, t1)])] of
           Inl e \<Rightarrow> False
         | Inr c1 \<Rightarrow>
             updateReadReceipt c1 room_id [(event_id, [(u, t1)])] = Inr c1 \<and>
             updateReadReceipt c1 room_id [(event_id, [(u, t2)])] = Inr c1 \<and>
             (case readReceiptsDb c1 (event_id, room_id) of
                Some (Encoded m) \<Rightarrow>
                  (case readReceiptsDb c (event_id, room_id) of
                     Some (Encoded saved) \<Rightarrow>
                       set saved \<subseteq> set m \<and> (u \<notin> fst ` set saved \<longrightarrow> map_of m u = Some t1)
                   | _ \<Rightarrow> m = [(u, t1)])
              | _ \<Rightarrow> False)"
proof (cases "readReceiptsDb c (event_id, room_id)")
  case None
  then show ?thesis by simp
next
  case (Some st)
  with assms obtain saved where "st = Encoded saved" by (cases st) auto
  with Some show ?thesis
    by (simp add: map_emplace_twice map_of_map_emplace_new set_map_emplace)
qed

theorem updateReadReceipt_merge_witness:
  "updateReadReceipt fresh ''!r'' [(''$e'', [(''@u'', 1)])]
     = Inr (fresh\<lparr>readReceiptsDb := [(''$e'', ''!r'') \<mapsto> Encoded [(''@u'', 1)]]\<rparr>) \<and>
   updateReadReceipt (fresh\<lparr>readReceiptsDb := [(''$e'', ''!r'') \<mapsto> Encoded [(''@u'', 1)]]\<rparr>) ''!r''
       [(''$e'', [(''@u'', 1)])]
     = Inr (fresh\<lparr>readReceiptsDb := [(''$e'', ''!r'') \<mapsto> Encoded [(''@u'', 1)]]\<rparr>) \<and>
   updateReadReceipt (fresh\<lparr>readReceiptsDb := [(''$e'', ''!r'') \<mapsto> Encoded [(''@u'', 1)]]\<rparr>) ''!r''
       [(''$e'', [(''@u'', 2)])]
     = Inr (fresh\<lparr>readReceiptsDb := [(''$e'', ''!r'') \<mapsto> Encoded [(''@u'', 1)]]\<rparr>)"
  using updateReadReceipt_merge [of fresh "''$e''" "''!r''" "''@u''" 1 2]
  by (simp add: fresh_def split: sum.splits)

text \<open>On an empty store, merging \<open>{@u: 1}\<close> and then \<open>{@u: 2}\<close> leaves \<open>@u\<close> at 1.\<close>

theorem updateReadReceipt_newer_cex:
  "(1 :: 64 word) < 2 \<and>
   (case updateReadReceipt fresh ''!r'' [(''$e'', [(''@u'', 1)])] of
      Inl e \<Rightarrow> None
    | Inr c1 \<Rightarrow>
        (case updateReadReceipt c1 ''!r'' [(''$e'', [(''@u'', 2)])] of
           Inl e \<Rightarrow> None
         | Inr c2 \<Rightarrow> readReceiptsDb c2 (''$e'', ''!r''))) = Some (Encoded [(''@u'', 1)])"
  by (simp add: fresh_def)

subsection \<open>Power levels\<close>

lemma min_event_level_loop_fold:
  "min_event_level_loop content tys acc =
   fold min (map (\<lambda>ty. word_of_int (state_level content ty)) tys) acc"
  by (induction tys arbitrary: acc) (auto simp: min.commute)

lemma min_event_level_loop_Min:
  "min_event_level_loop content tys acc =
   Min (insert acc ((\<lambda>ty. word_of_int (state_level content ty)) ` set tys))"
proof -
  have "Min (set (acc # map (\<lambda>ty. word_of_int (state_level content ty) :: 16 word) tys)) =
        fold min (map (\<lambda>ty. word_of_int (state_level content ty)) tys) acc"
    by (rule Min.set_eq_fold)
  then show ?thesis by (simp add: min_event_level_loop_fold)
qed

lemma uint16_le_iff:
  "0 \<le> a \<Longrightarrow> a \<le> 65535 \<Longrightarrow> 0 \<le> b \<Longrightarrow> b \<le> 65535 \<Longrightarrow>
   ((word_of_int a :: 16 word) \<le> word_of_int b) = (a \<le> b)"
  by (simp add: word_le_def uint_word_of_int)

lemma hasEnoughPowerLevel_Encoded:
  assumes "statesDb c room_id RoomPowerLevels = Some (Encoded content)"
  shows "hasEnoughPowerLevel c eventTypes room_id user_id =
         (Min (insert 65535 ((\<lambda>ty. word_of_int (state_level content ty)) ` set eventTypes))
            \<le> (word_of_int (user_level content user_id) :: 16 word))"
  using assms by (simp add: hasEnoughPowerLevel_def min_event_level_loop_Min)

lemma hasEnoughPowerLevel_in_range:
  assumes st: "statesDb c room_id RoomPowerLevels = Some (Encoded content)"
    and ne: "eventTypes \<noteq> []"
    and ul: "0 \<le> user_level content user_id" "user_level content user_id \<le> 65535"
    and sl: "\<forall>ty\<in>set eventTypes. 0 \<le> state_level content ty \<and> state_level content ty \<le> 65535"
  shows "hasEnoughPowerLevel c eventTypes room_id user_id =
         (Min (state_level content ` set eventTypes) \<le> user_level content user_id)"
proof -
  let ?u = "user_level content user_id"
  let ?w = "\<lambda>ty. word_of_int (state_level content ty) :: 16 word"
  have fin: "finite (?w ` set eventTypes)" "?w ` set eventTypes \<noteq> {}" using ne by auto
  have top: "(65535 :: 16 word) \<le> word_of_int ?u \<Longrightarrow> \<exists>ty\<in>set eventTypes. ?w ty \<le> word_of_int ?u"
  proof -
    assume a: "(65535 :: 16 word) \<le> word_of_int ?u"
    from ne obtain ty where ty: "ty \<in> set eventTypes" by (cases eventTypes) auto
    from a ul have "65535 \<le> ?u" by (simp add: word_le_def uint_word_of_int)
    with sl ty have "state_level content ty \<le> ?u" by force
    with sl ty ul have "?w ty \<le> word_of_int ?u" by (simp add: uint16_le_iff)
    with ty show ?thesis by blast
  qed
  have "hasEnoughPowerLevel c eventTypes room_id user_id =
        (65535 \<le> (word_of_int ?u :: 16 word) \<or> (\<exists>ty\<in>set eventTypes. ?w ty \<le> word_of_int ?u))"
    using fin by (simp add: hasEnoughPowerLevel_Encoded [OF st] Min_le_iff min_le_iff_disj)
  also have "\<dots> = (\<exists>ty\<in>set eventTypes. ?w ty \<le> word_of_int ?u)"
    using top by blast
  also have "\<dots> = (\<exists>ty\<in>set eventTypes. state_level content ty \<le> ?u)"
    using sl ul by (auto simp: uint16_le_iff)
  also have "\<dots> = (Min (state_level content ` set eventTypes) \<le> ?u)"
    using ne by (simp add: Min_le_iff)
  finally show ?thesis .
qed

text \<open>C2 (as amended): without a stored power-levels event, and with one that does not
  parse, \<open>hasEnoughPowerLevel\<close> is false for every user and every list of event types.
  With a stored event it holds iff the user's level, narrowed to 16 bits, is at least the
  least of 65535 and the narrowed levels that the given event types require; so for a
  non-empty list and levels between 0 and 65535 it holds iff the user's power level is at
  least the minimum required level over the given event types.\<close>

theorem hasEnoughPowerLevel_spec:
  "(statesDb c room_id RoomPowerLevels = None \<longrightarrow>
      \<not> hasEnoughPowerLevel c eventTypes room_id user_id) \<and>
   (statesDb c room_id RoomPowerLevels = Some Malformed \<longrightarrow>
      \<not> hasEnoughPowerLevel c eventTypes room_id user_id) \<and>
   (\<forall>content. statesDb c room_id RoomPowerLevels = Some (Encoded content) \<longrightarrow>
      hasEnoughPowerLevel c eventTypes room_id user_id =
        (Min (insert 65535 ((\<lambda>ty. word_of_int (state_level content ty)) ` set eventTypes))
           \<le> (word_of_int (user_level content user_id) :: 16 word))) \<and>
   (\<forall>content. statesDb c room_id RoomPowerLevels = Some (Encoded content) \<and> eventTypes \<noteq> [] \<and>
      0 \<le> user_level content user_id \<and> user_level content user_id \<le> 65535 \<and>
      (\<forall>ty\<in>set eventTypes. 0 \<le> state_level content ty \<and> state_level content ty \<le> 65535) \<longrightarrow>
      hasEnoughPowerLevel c eventTypes room_id user_id =
        (Min (state_level content ` set eventTypes) \<le> user_level content user_id))"
proof -
  have "statesDb c room_id RoomPowerLevels = None \<Longrightarrow>
          \<not> hasEnoughPowerLevel c eventTypes room_id user_id"
    by (simp add: hasEnoughPowerLevel_def)
  moreover have "statesDb c room_id RoomPowerLevels = Some Malformed \<Longrightarrow>
          \<not> hasEnoughPowerLevel c eventTypes room_id user_id"
    by (simp add: hasEnoughPowerLevel_def)
  ultimately show ?thesis
    using hasEnoughPowerLevel_Encoded hasEnoughPowerLevel_in_range by blast
qed

theorem hasEnoughPowerLevel_spec_witness:
  "\<not> hasEnoughPowerLevel fresh [''m.room.name''] ''!r'' ''@admin'' \<and>
   hasEnoughPowerLevel
     (fresh\<lparr>statesDb := (\<lambda>_. [RoomPowerLevels \<mapsto> Encoded
        \<lparr>users_levels = [''@admin'' \<mapsto> 100], events_levels = [''m.room.name'' \<mapsto> 60],
         users_default = 0, state_default = 50\<rparr>])\<rparr>)
     [''m.room.name'', ''m.room.topic''] ''!r'' ''@admin'' \<and>
   \<not> hasEnoughPowerLevel
     (fresh\<lparr>statesDb := (\<lambda>_. [RoomPowerLevels \<mapsto> Encoded
        \<lparr>users_levels = [''@admin'' \<mapsto> 100], events_levels = [''m.room.name'' \<mapsto> 60],
         users_default = 0, state_default = 50\<rparr>])\<rparr>)
     [''m.room.name'', ''m.room.topic''] ''!r'' ''@bob''"
  using hasEnoughPowerLevel_spec [of fresh "''!r''" "[''m.room.name'']" "''@admin''"]
    hasEnoughPowerLevel_spec [of "fresh\<lparr>statesDb := (\<lambda>_. [RoomPowerLevels \<mapsto> Encoded
        \<lparr>users_levels = [''@admin'' \<mapsto> 100], events_levels = [''m.room.name'' \<mapsto> 60],
         users_default = 0, state_default = 50\<rparr>])\<rparr>" "''!r''" "[''m.room.name'', ''m.room.topic'']" "''@admin''"]
    hasEnoughPowerLevel_spec [of "fresh\<lparr>statesDb := (\<lambda>_. [RoomPowerLevels \<mapsto> Encoded
        \<lparr>users_levels = [''@admin'' \<mapsto> 100], events_levels = [''m.room.name'' \<mapsto> 60],
         users_default = 0, state_default = 50\<rparr>])\<rparr>" "''!r''" "[''m.room.name'', ''m.room.topic'']" "''@bob''"]
  by (simp add: fresh_def user_level_def state_level_def)

text \<open>A room without a power-levels event restricts every user; and a user of level \<open>-1\<close>
  passes a required level of 50, since \<open>-1\<close> narrows to 65535.\<close>

theorem hasEnoughPowerLevel_cex:
  "\<not> hasEnoughPowerLevel fresh [''m.room.message''] ''!r'' ''@alice'' \<and>
   user_level \<lparr>users_levels = Map.empty, events_levels = Map.empty,
         users_default = - 1, state_default = 50\<rparr> ''@alice''
     < state_level \<lparr>users_levels = Map.empty, events_levels = Map.empty,
         users_default = - 1, state_default = 50\<rparr> ''m.room.name'' \<and>
   hasEnoughPowerLevel
     (fresh\<lparr>statesDb := (\<lambda>_. [RoomPowerLevels \<mapsto> Encoded
        \<lparr>users_levels = Map.empty, events_levels = Map.empty,
         users_default = - 1, state_default = 50\<rparr>])\<rparr>)
     [''m.room.name''] ''!r'' ''@alice''"
  by (simp add: hasEnoughPowerLevel_def fresh_def user_level_def state_level_def)

subsection \<open>Timeline messages and retention\<close>




























subsection \<open>Restoring the sessions\<close>

lemma restore_inbound_ok:
  "\<forall>(k, v)\<in>set db. v \<noteq> Malformed \<Longrightarrow> snd (restore_inbound db c) = None"
  by (induction db c rule: restore_inbound.induct) (auto simp: unpickle_def split: stored.splits)

lemma restore_inbound_other:
  "k \<notin> fst ` set db \<Longrightarrow>
   group_inbound_sessions (fst (restore_inbound db c)) k = group_inbound_sessions c k"
  by (induction db c rule: restore_inbound.induct) (auto simp: unpickle_def split: stored.splits)

lemma restore_inbound_entry:
  "\<forall>(k, v)\<in>set db. v \<noteq> Malformed \<Longrightarrow> distinct (map fst db) \<Longrightarrow> (k, Encoded s) \<in> set db \<Longrightarrow>
   group_inbound_sessions (fst (restore_inbound db c)) k = Some (Some s)"
  by (induction db c rule: restore_inbound.induct)
     (auto simp: unpickle_def restore_inbound_other split: stored.splits)

lemma restore_inbound_frame:
  "group_outbound_session_data (fst (restore_inbound db c)) = group_outbound_session_data c \<and>
   group_outbound_sessions (fst (restore_inbound db c)) = group_outbound_sessions c \<and>
   outboundMegolmSessionDb (fst (restore_inbound db c)) = outboundMegolmSessionDb c \<and>
   inboundMegolmSessionDb (fst (restore_inbound db c)) = inboundMegolmSessionDb c"
  by (induction db c rule: restore_inbound.induct) (auto simp: unpickle_def split: stored.splits)

lemma restore_inbound_abort:
  "\<forall>(k, v)\<in>set pre. v \<noteq> Malformed \<Longrightarrow>
   restore_inbound (pre @ (k, Malformed) # post) c = (fst (restore_inbound pre c), Some olm_exception)"
  by (induction pre c rule: restore_inbound.induct) (auto simp: unpickle_def split: stored.splits)

lemma restore_outbound_ok:
  "\<forall>(k, v)\<in>set db. \<forall>d. v \<noteq> JsonObject (Some d) (Some Malformed) \<Longrightarrow>
   snd (restore_outbound db c) = None"
  by (induction db c rule: restore_outbound.induct)
     (auto simp: unpickle_def Let_def split: stored.splits option.splits)

lemma restore_outbound_other:
  "k \<notin> fst ` set db \<Longrightarrow>
   group_outbound_session_data (fst (restore_outbound db c)) k = group_outbound_session_data c k \<and>
   group_outbound_sessions (fst (restore_outbound db c)) k = group_outbound_sessions c k"
  by (induction db c rule: restore_outbound.induct)
     (auto simp: unpickle_def Let_def split: stored.splits option.splits)

lemma restore_outbound_entry:
  "\<forall>(k, v)\<in>set db. \<forall>d. v \<noteq> JsonObject (Some d) (Some Malformed) \<Longrightarrow>
   distinct (map fst db) \<Longrightarrow> (k, JsonObject (Some d) (Some (Encoded s))) \<in> set db \<Longrightarrow>
   group_outbound_session_data (fst (restore_outbound db c)) k = Some d \<and>
   group_outbound_sessions (fst (restore_outbound db c)) k = Some (Some s)"
proof (induction db c rule: restore_outbound.induct)
  case (1 c)
  then show ?case by simp
next
  case (2 key rest c)
  then show ?case by simp
next
  case (3 key s' rest c)
  then show ?case by simp
next
  case (4 key data s' rest c)
  define c1 where "c1 = c\<lparr>group_outbound_session_data := (group_outbound_session_data c)(key \<mapsto> data)\<rparr>"
  from "4.prems" have ok: "\<forall>(k, v)\<in>set rest. \<forall>d. v \<noteq> JsonObject (Some d) (Some Malformed)"
    and dist: "distinct (map fst rest)" and fresh_key: "key \<notin> fst ` set rest"
    and s': "s' \<noteq> Some Malformed" by auto
  show ?case
  proof (cases s')
    case None
    with "4.prems" have mem: "(k, JsonObject (Some d) (Some (Encoded s))) \<in> set rest" by auto
    have "restore_outbound ((key, JsonObject (Some data) s') # rest) c = restore_outbound rest c1"
      using None by (simp add: c1_def)
    with "4.IH"(1) [OF c1_def None ok dist mem]
    show ?thesis by (simp add: c1_def)
  next
    case (Some pickled)
    with s' obtain session where p: "pickled = Encoded session" by (cases pickled) auto
    define c2 where "c2 = c1\<lparr>group_outbound_sessions := (group_outbound_sessions c1)(key \<mapsto> Some session)\<rparr>"
    have step: "restore_outbound ((key, JsonObject (Some data) s') # rest) c = restore_outbound rest c2"
      using Some p by (simp add: c1_def c2_def unpickle_def)
    show ?thesis
    proof (cases "k = key")
      case True
      with "4.prems" fresh_key Some p have "d = data" "s = session" by force+
      with True fresh_key restore_outbound_other [of key rest c2] show ?thesis
        unfolding step by (simp add: c1_def c2_def)
    next
      case False
      with "4.prems" have mem: "(k, JsonObject (Some d) (Some (Encoded s))) \<in> set rest" by auto
      have u: "unpickle pickled = Inr session" using p by (simp add: unpickle_def)
      from "4.IH"(2) [OF c1_def Some u ok dist mem]
      show ?thesis unfolding step by (simp add: c1_def c2_def)
    qed
  qed
qed

lemma restore_outbound_frame:
  "group_inbound_sessions (fst (restore_outbound db c)) = group_inbound_sessions c"
  by (induction db c rule: restore_outbound.induct)
     (auto simp: unpickle_def Let_def split: stored.splits option.splits)

lemma restore_outbound_abort:
  "\<forall>(k, v)\<in>set pre. \<forall>d. v \<noteq> JsonObject (Some d) (Some Malformed) \<Longrightarrow>
   restore_outbound (pre @ (k, JsonObject (Some d) (Some Malformed)) # post) c =
     ((fst (restore_outbound pre c))
        \<lparr>group_outbound_session_data :=
           (group_outbound_session_data (fst (restore_outbound pre c)))(k \<mapsto> d)\<rparr>,
      Some olm_exception)"
  by (induction pre c rule: restore_outbound.induct)
     (auto simp: unpickle_def Let_def split: stored.splits option.splits)


lemma restoreSessions_inbound_ok:
  "snd (restore_inbound (inboundMegolmSessionDb c) c) = None \<Longrightarrow>
   restoreSessions c =
     restore_outbound (outboundMegolmSessionDb c) (fst (restore_inbound (inboundMegolmSessionDb c) c))"
  using restore_inbound_frame [of "inboundMegolmSessionDb c" c]
  by (cases "restore_inbound (inboundMegolmSessionDb c) c") (simp add: restoreSessions_def)

lemma restoreSessions_inbound_abort:
  "snd (restore_inbound (inboundMegolmSessionDb c) c) = Some e \<Longrightarrow>
   restoreSessions c = restore_inbound (inboundMegolmSessionDb c) c"
  by (cases "restore_inbound (inboundMegolmSessionDb c) c") (simp add: restoreSessions_def)

text \<open>C6 (as amended): \<open>restoreSessions\<close> tolerates the outbound entries whose JSON does not
  parse or lacks a member: when no stored pickle fails to unpickle, the restore completes
  without an exception and the mirrors hold every well-formed inbound and outbound entry,
  whatever other outbound entries were skipped. There is no handler for a pickle that
  fails to unpickle: at the first such inbound entry the restore ends with the exception,
  the outbound table is not read at all and no further inbound entry is entered; at the
  first such outbound entry it ends with the exception and no further outbound session is
  entered.\<close>

theorem restoreSessions_spec:
  "((\<forall>(k, v)\<in>set (inboundMegolmSessionDb c). v \<noteq> Malformed) \<and>
    (\<forall>(k, v)\<in>set (outboundMegolmSessionDb c). \<forall>d. v \<noteq> JsonObject (Some d) (Some Malformed)) \<and>
    distinct (map fst (inboundMegolmSessionDb c)) \<and>
    distinct (map fst (outboundMegolmSessionDb c)) \<longrightarrow>
      snd (restoreSessions c) = None \<and>
      (\<forall>(k, v)\<in>set (inboundMegolmSessionDb c). \<forall>s. v = Encoded s \<longrightarrow>
         group_inbound_sessions (fst (restoreSessions c)) k = Some (Some s)) \<and>
      (\<forall>(k, v)\<in>set (outboundMegolmSessionDb c). \<forall>d s. v = JsonObject (Some d) (Some (Encoded s)) \<longrightarrow>
         group_outbound_session_data (fst (restoreSessions c)) k = Some d \<and>
         group_outbound_sessions (fst (restoreSessions c)) k = Some (Some s))) \<and>
   (\<forall>pre k post.
      inboundMegolmSessionDb c = pre @ (k, Malformed) # post \<and>
      (\<forall>(k, v)\<in>set pre. v \<noteq> Malformed) \<longrightarrow>
        snd (restoreSessions c) = Some olm_exception \<and>
        group_outbound_session_data (fst (restoreSessions c)) = group_outbound_session_data c \<and>
        group_outbound_sessions (fst (restoreSessions c)) = group_outbound_sessions c \<and>
        (\<forall>k'. k' \<notin> fst ` set pre \<longrightarrow>
           group_inbound_sessions (fst (restoreSessions c)) k' = group_inbound_sessions c k')) \<and>
   (\<forall>pre k d post.
      (\<forall>(k, v)\<in>set (inboundMegolmSessionDb c). v \<noteq> Malformed) \<and>
      outboundMegolmSessionDb c = pre @ (k, JsonObject (Some d) (Some Malformed)) # post \<and>
      (\<forall>(k, v)\<in>set pre. \<forall>d. v \<noteq> JsonObject (Some d) (Some Malformed)) \<longrightarrow>
        snd (restoreSessions c) = Some olm_exception \<and>
        (\<forall>k'. k' \<notin> fst ` set pre \<longrightarrow>
           group_outbound_sessions (fst (restoreSessions c)) k' = group_outbound_sessions c k'))"
proof (intro conjI impI allI)
  let ?c1 = "fst (restore_inbound (inboundMegolmSessionDb c) c)"
  assume a: "(\<forall>(k, v)\<in>set (inboundMegolmSessionDb c). v \<noteq> Malformed) \<and>
    (\<forall>(k, v)\<in>set (outboundMegolmSessionDb c). \<forall>d. v \<noteq> JsonObject (Some d) (Some Malformed)) \<and>
    distinct (map fst (inboundMegolmSessionDb c)) \<and>
    distinct (map fst (outboundMegolmSessionDb c))"
  then have r: "restoreSessions c = restore_outbound (outboundMegolmSessionDb c) ?c1"
    by (simp add: restoreSessions_inbound_ok restore_inbound_ok)
  from a show "snd (restoreSessions c) = None"
    unfolding r by (simp add: restore_outbound_ok)
  from a show "\<forall>(k, v)\<in>set (inboundMegolmSessionDb c). \<forall>s. v = Encoded s \<longrightarrow>
         group_inbound_sessions (fst (restoreSessions c)) k = Some (Some s)"
    unfolding r restore_outbound_frame using restore_inbound_entry [of "inboundMegolmSessionDb c" _ _ c]
    by blast
  from a show "\<forall>(k, v)\<in>set (outboundMegolmSessionDb c). \<forall>d s. v = JsonObject (Some d) (Some (Encoded s)) \<longrightarrow>
         group_outbound_session_data (fst (restoreSessions c)) k = Some d \<and>
         group_outbound_sessions (fst (restoreSessions c)) k = Some (Some s)"
    unfolding r using restore_outbound_entry [of "outboundMegolmSessionDb c" _ _ _ ?c1]
    by blast
next
  fix pre k post
  assume a: "inboundMegolmSessionDb c = pre @ (k, Malformed) # post \<and>
      (\<forall>(k, v)\<in>set pre. v \<noteq> Malformed)"
  then have i: "restore_inbound (inboundMegolmSessionDb c) c =
                  (fst (restore_inbound pre c), Some olm_exception)"
    by (simp add: restore_inbound_abort)
  then have r: "restoreSessions c = (fst (restore_inbound pre c), Some olm_exception)"
    by (simp add: restoreSessions_inbound_abort)
  show "snd (restoreSessions c) = Some olm_exception" by (simp add: r)
  show "group_outbound_session_data (fst (restoreSessions c)) = group_outbound_session_data c"
    by (simp add: r restore_inbound_frame)
  show "group_outbound_sessions (fst (restoreSessions c)) = group_outbound_sessions c"
    by (simp add: r restore_inbound_frame)
  show "k' \<notin> fst ` set pre \<Longrightarrow>
        group_inbound_sessions (fst (restoreSessions c)) k' = group_inbound_sessions c k'" for k'
    by (simp add: r restore_inbound_other)
next
  fix pre k d post
  let ?c1 = "fst (restore_inbound (inboundMegolmSessionDb c) c)"
  assume a: "(\<forall>(k, v)\<in>set (inboundMegolmSessionDb c). v \<noteq> Malformed) \<and>
      outboundMegolmSessionDb c = pre @ (k, JsonObject (Some d) (Some Malformed)) # post \<and>
      (\<forall>(k, v)\<in>set pre. \<forall>d. v \<noteq> JsonObject (Some d) (Some Malformed))"
  then have "restoreSessions c = restore_outbound (outboundMegolmSessionDb c) ?c1"
    by (simp add: restoreSessions_inbound_ok restore_inbound_ok)
  with a have r: "restoreSessions c =
     ((fst (restore_outbound pre ?c1))
        \<lparr>group_outbound_session_data :=
           (group_outbound_session_data (fst (restore_outbound pre ?c1)))(k \<mapsto> d)\<rparr>,
      Some olm_exception)"
    by (simp add: restore_outbound_abort)
  show "snd (restoreSessions c) = Some olm_exception" by (simp add: r)
  show "k' \<notin> fst ` set pre \<Longrightarrow>
        group_outbound_sessions (fst (restoreSessions c)) k' = group_outbound_sessions c k'" for k'
    by (simp add: r restore_outbound_other restore_inbound_frame)
qed

theorem restoreSessions_spec_witness:
  "snd (restoreSessions (fresh\<lparr>inboundMegolmSessionDb :=
             [(''a'', Encoded (InboundSession ''sa'')), (''b'', Encoded (InboundSession ''sb''))],
           outboundMegolmSessionDb :=
             [(''!r1'', NotJson),
              (''!r2'', JsonObject (Some \<lparr>message_index = 4, other_members = ''m''\<rparr>)
                          (Some (Encoded (OutboundSession ''o2'')))),
              (''!r3'', JsonObject None None)]\<rparr>)) = None \<and>
   group_inbound_sessions (fst (restoreSessions (fresh\<lparr>inboundMegolmSessionDb :=
             [(''a'', Encoded (InboundSession ''sa'')), (''b'', Encoded (InboundSession ''sb''))],
           outboundMegolmSessionDb :=
             [(''!r1'', NotJson),
              (''!r2'', JsonObject (Some \<lparr>message_index = 4, other_members = ''m''\<rparr>)
                          (Some (Encoded (OutboundSession ''o2'')))),
              (''!r3'', JsonObject None None)]\<rparr>))) ''a'' = Some (Some (InboundSession ''sa'')) \<and>
   group_inbound_sessions (fst (restoreSessions (fresh\<lparr>inboundMegolmSessionDb :=
             [(''a'', Encoded (InboundSession ''sa'')), (''b'', Encoded (InboundSession ''sb''))],
           outboundMegolmSessionDb :=
             [(''!r1'', NotJson),
              (''!r2'', JsonObject (Some \<lparr>message_index = 4, other_members = ''m''\<rparr>)
                          (Some (Encoded (OutboundSession ''o2'')))),
              (''!r3'', JsonObject None None)]\<rparr>))) ''b'' = Some (Some (InboundSession ''sb'')) \<and>
   group_outbound_session_data (fst (restoreSessions (fresh\<lparr>inboundMegolmSessionDb :=
             [(''a'', Encoded (InboundSession ''sa'')), (''b'', Encoded (InboundSession ''sb''))],
           outboundMegolmSessionDb :=
             [(''!r1'', NotJson),
              (''!r2'', JsonObject (Some \<lparr>message_index = 4, other_members = ''m''\<rparr>)
                          (Some (Encoded (OutboundSession ''o2'')))),
              (''!r3'', JsonObject None None)]\<rparr>))) ''!r2'' =
     Some \<lparr>message_index = 4, other_members = ''m''\<rparr> \<and>
   group_outbound_sessions (fst (restoreSessions (fresh\<lparr>inboundMegolmSessionDb :=
             [(''a'', Encoded (InboundSession ''sa'')), (''b'', Encoded (InboundSession ''sb''))],
           outboundMegolmSessionDb :=
             [(''!r1'', NotJson),
              (''!r2'', JsonObject (Some \<lparr>message_index = 4, other_members = ''m''\<rparr>)
                          (Some (Encoded (OutboundSession ''o2'')))),
              (''!r3'', JsonObject None None)]\<rparr>))) ''!r2'' = Some (Some (OutboundSession ''o2'')) \<and>
   snd (restoreSessions (fresh\<lparr>inboundMegolmSessionDb :=
             [(''a'', Malformed), (''b'', Encoded (InboundSession ''sb''))],
           outboundMegolmSessionDb :=
             [(''!r2'', JsonObject (Some \<lparr>message_index = 4, other_members = ''m''\<rparr>)
                          (Some (Encoded (OutboundSession ''o2''))))]\<rparr>)) = Some olm_exception \<and>
   group_inbound_sessions (fst (restoreSessions (fresh\<lparr>inboundMegolmSessionDb :=
             [(''a'', Malformed), (''b'', Encoded (InboundSession ''sb''))],
           outboundMegolmSessionDb :=
             [(''!r2'', JsonObject (Some \<lparr>message_index = 4, other_members = ''m''\<rparr>)
                          (Some (Encoded (OutboundSession ''o2''))))]\<rparr>))) ''b'' = None \<and>
   group_outbound_sessions (fst (restoreSessions (fresh\<lparr>inboundMegolmSessionDb :=
             [(''a'', Malformed), (''b'', Encoded (InboundSession ''sb''))],
           outboundMegolmSessionDb :=
             [(''!r2'', JsonObject (Some \<lparr>message_index = 4, other_members = ''m''\<rparr>)
                          (Some (Encoded (OutboundSession ''o2''))))]\<rparr>))) = Map.empty"
  using restoreSessions_spec [of "(fresh\<lparr>inboundMegolmSessionDb :=
             [(''a'', Encoded (InboundSession ''sa'')), (''b'', Encoded (InboundSession ''sb''))],
           outboundMegolmSessionDb :=
             [(''!r1'', NotJson),
              (''!r2'', JsonObject (Some \<lparr>message_index = 4, other_members = ''m''\<rparr>)
                          (Some (Encoded (OutboundSession ''o2'')))),
              (''!r3'', JsonObject None None)]\<rparr>)"]
    restoreSessions_spec [of "(fresh\<lparr>inboundMegolmSessionDb :=
             [(''a'', Malformed), (''b'', Encoded (InboundSession ''sb''))],
           outboundMegolmSessionDb :=
             [(''!r2'', JsonObject (Some \<lparr>message_index = 4, other_members = ''m''\<rparr>)
                          (Some (Encoded (OutboundSession ''o2''))))]\<rparr>)", THEN conjunct2, THEN conjunct1, rule_format,
      of "[]" "''a''" "[(''b'', Encoded (InboundSession ''sb''))]"]
  by (simp add: fresh_def)

text \<open>One malformed inbound entry: the restore is aborted and the well-formed entries, one
  inbound and one outbound, are not restored; the cache is as before. One outbound entry
  whose session does not unpickle: the restore is aborted and the session of the entry
  behind it is not restored.\<close>

theorem restoreSessions_cex:
  "restoreSessions
     (fresh\<lparr>inboundMegolmSessionDb :=
              [(''a'', Malformed), (''b'', Encoded (InboundSession ''sb''))],
            outboundMegolmSessionDb :=
              [(''!r2'', JsonObject (Some \<lparr>message_index = 4, other_members = ''m''\<rparr>)
                           (Some (Encoded (OutboundSession ''o2''))))]\<rparr>) =
     (fresh\<lparr>inboundMegolmSessionDb :=
              [(''a'', Malformed), (''b'', Encoded (InboundSession ''sb''))],
            outboundMegolmSessionDb :=
              [(''!r2'', JsonObject (Some \<lparr>message_index = 4, other_members = ''m''\<rparr>)
                           (Some (Encoded (OutboundSession ''o2''))))]\<rparr>,
      Some olm_exception) \<and>
   snd (restoreSessions
     (fresh\<lparr>outboundMegolmSessionDb :=
              [(''!r1'', JsonObject (Some \<lparr>message_index = 1, other_members = ''m''\<rparr>)
                           (Some Malformed)),
               (''!r2'', JsonObject (Some \<lparr>message_index = 4, other_members = ''m''\<rparr>)
                           (Some (Encoded (OutboundSession ''o2''))))]\<rparr>)) = Some olm_exception \<and>
   group_outbound_sessions (fst (restoreSessions
     (fresh\<lparr>outboundMegolmSessionDb :=
              [(''!r1'', JsonObject (Some \<lparr>message_index = 1, other_members = ''m''\<rparr>)
                           (Some Malformed)),
               (''!r2'', JsonObject (Some \<lparr>message_index = 4, other_members = ''m''\<rparr>)
                           (Some (Encoded (OutboundSession ''o2''))))]\<rparr>))) ''!r2'' = None"
  by (simp add: restoreSessions_def fresh_def unpickle_def)

subsection \<open>Searching rooms\<close>

text \<open>The multimap filled by the loop is the stable sort of the scored rooms: filling it
  entry by entry is insertion sort from the left, each entry behind its equals.\<close>

lemma insort_key_multimap_emplace:
  "insort_key fst (k', v') (multimap_emplace (<) k v zs) =
   multimap_emplace (<) k v (insort_key fst (k', v') zs)"
  by (induction zs) auto

lemma sort_key_snoc:
  "sort_key fst (xs @ [(k, v)]) = multimap_emplace (<) k v (sort_key fst xs)"
  by (induction xs) (auto simp: insort_key_multimap_emplace)

lemma searchRooms_loop_sort_key:
  assumes "\<forall>(k, v)\<in>set db. v \<noteq> Malformed"
  shows "searchRooms_loop toLower distance query db (sort_key fst seen) =
         Inr (sort_key fst (seen @ scored toLower distance query db))"
  using assms
proof (induction db arbitrary: seen)
  case Nil
  then show ?case by simp
next
  case (Cons e db)
  from Cons.prems obtain room_id tmp where e: "e = (room_id, Encoded tmp)"
    by (cases e; cases "snd e") auto
  let ?x = "(distance query (toLower (name tmp)), room_id, tmp)"
  have "multimap_emplace (<) (fst ?x) (snd ?x) (sort_key fst seen) = sort_key fst (seen @ [?x])"
    by (simp add: sort_key_snoc)
  moreover from Cons.prems have "\<forall>(k, v)\<in>set db. v \<noteq> Malformed" by simp
  ultimately show ?case using Cons.IH [of "seen @ [?x]"] by (simp add: e Let_def)
qed

lemma searchRooms_loop_throws:
  "(room_id, Malformed) \<in> set db \<Longrightarrow> searchRooms_loop toLower distance query db items = Inl json_exception"
  by (induction toLower distance query db items rule: searchRooms_loop.induct) (auto simp: Let_def)

lemma levenshtein_distance_nonneg: "0 \<le> levenshtein_distance s1 s2"
  by (induction s1 s2 rule: levenshtein_distance.induct) auto

lemma levenshtein_distance_same: "levenshtein_distance s s = 0"
proof (induction s)
  case Nil
  then show ?case by simp
next
  case (Cons a s)
  have "0 \<le> levenshtein_distance s (a # s)" "0 \<le> levenshtein_distance (a # s) s"
    by (rule levenshtein_distance_nonneg)+
  with Cons show ?case by simp
qed

lemma scored_score:
  "(sc, room_id, info) \<in> set (scored toLower distance query db) \<Longrightarrow>
   sc = distance query (toLower (name info))"
  by (induction toLower distance query db rule: scored.induct) auto

lemma length_scored:
  "\<forall>(k, v)\<in>set db. v \<noteq> Malformed \<Longrightarrow> length (scored toLower distance query db) = length db"
  by (induction toLower distance query db rule: scored.induct) auto

lemma scored_append:
  "scored toLower distance query (pre @ post) = scored toLower distance query pre @ scored toLower distance query post"
  by (induction toLower distance query pre rule: scored.induct) auto

lemma scored_no_zero:
  "\<forall>(k, v)\<in>set pre. \<forall>i. v = Encoded i \<longrightarrow> distance query (toLower (name i)) \<noteq> 0 \<Longrightarrow>
   filter (\<lambda>y. fst y = 0) (scored toLower distance query pre) = []"
  by (induction toLower distance query pre rule: scored.induct) auto

lemma searchRooms_eq:
  assumes "\<forall>(k, v)\<in>set (roomsDb c). v \<noteq> Malformed"
  shows "searchRooms toLower distance c query max_items =
         Inr (map (\<lambda>(score, room_id, info).
                     \<lparr>result_room_id = room_id, result_info = info,
                      result_img = image_data c (avatar_url info)\<rparr>)
                  (take (unat max_items) (sort_key fst (scored toLower distance query (roomsDb c)))))"
proof -
  have "searchRooms_loop toLower distance query (roomsDb c) (sort_key fst []) =
        Inr (sort_key fst ([] @ scored toLower distance query (roomsDb c)))"
    using assms by (rule searchRooms_loop_sort_key)
  then have loop: "searchRooms_loop toLower distance query (roomsDb c) [] =
                   Inr (sort_key fst (scored toLower distance query (roomsDb c)))"
    by simp
  show ?thesis
    unfolding searchRooms_def loop by (simp add: Let_def)
qed

lemma hd_sort_key_first_zero:
  fixes xs :: "(int \<times> 'a) list"
  assumes nonneg: "\<forall>y\<in>set xs. 0 \<le> fst y"
    and first: "filter (\<lambda>y. fst y = 0) xs = x # rest"
  shows "\<exists>ys. sort_key fst xs = x # ys"
proof -
  let ?ys = "sort_key fst xs"
  from first have "x \<in> set (filter (\<lambda>y. fst y = 0) xs)" by simp
  then have x: "x \<in> set xs" "fst x = 0" by auto
  then have ne: "?ys \<noteq> []" by (metis empty_iff list.set(1) set_sort)
  then obtain y ys where ys: "?ys = y # ys" by (cases ?ys) auto
  have "sorted (map fst ?ys)" by (rule sorted_sort_key)
  with ys have "\<forall>z\<in>set ys. fst y \<le> fst z" by simp
  moreover have "x \<in> set ?ys" using x by simp
  ultimately have "fst y \<le> fst x" using ys by auto
  moreover have "y \<in> set xs" using ys by (metis list.set_intros(1) set_sort)
  ultimately have "fst y = 0" using nonneg x by force
  then have "filter (\<lambda>y. fst y = 0) ?ys = y # filter (\<lambda>y. fst y = 0) ys" using ys by simp
  moreover have "filter (\<lambda>y. fst y = 0) ?ys = filter (\<lambda>y. fst y = 0) xs"
    by (rule sort_key_stable)
  ultimately have "y = x" using first by simp
  with ys show ?thesis by simp
qed

text \<open>C5 (as amended): when every stored room parses, \<open>searchRooms\<close> scores every stored
  room by the distance between the query as given and the lower-cased room name, and
  returns the first \<open>max_items\<close> rooms (all of them when there are fewer) of the stable
  sort by score: ascending scores, ties in the order of the table scan; \<open>max_items = 0\<close>
  gives the empty sequence. The query is not lower-cased. This holds whatever the
  lower-casing and the distance are. For a stored room whose name is its own lower-case
  form and the query that is exactly this name: provided the distance between this name
  and itself is 0 and the distance between the query and any string is not negative, the
  room is ranked first when \<open>max_items\<close> is not 0 and no room scanned before it has
  score 0.\<close>

theorem searchRooms_spec:
  assumes "\<forall>(k, v)\<in>set (roomsDb c). v \<noteq> Malformed"
  shows "searchRooms toLower distance c query max_items =
           Inr (map (\<lambda>(score, room_id, info).
                       \<lparr>result_room_id = room_id, result_info = info,
                        result_img = image_data c (avatar_url info)\<rparr>)
                    (take (unat max_items) (sort_key fst (scored toLower distance query (roomsDb c))))) \<and>
         (case searchRooms toLower distance c query max_items of
            Inl e \<Rightarrow> False
          | Inr results \<Rightarrow>
              length results = min (unat max_items) (length (roomsDb c)) \<and>
              sorted (map (\<lambda>r. distance query (toLower (name (result_info r)))) results) \<and>
              (max_items = 0 \<longrightarrow> results = [])) \<and>
         (\<forall>pre room_id info post.
            roomsDb c = pre @ (room_id, Encoded info) # post \<and>
            query = name info \<and> toLower (name info) = name info \<and>
            distance query query = 0 \<and> (\<forall>s. 0 \<le> distance query s) \<and> max_items \<noteq> 0 \<and>
            (\<forall>(k, v)\<in>set pre. \<forall>i. v = Encoded i \<longrightarrow> distance query (toLower (name i)) \<noteq> 0) \<longrightarrow>
            (\<exists>others. searchRooms toLower distance c query max_items =
               Inr (\<lparr>result_room_id = room_id, result_info = info,
                     result_img = image_data c (avatar_url info)\<rparr> # others)))"
proof -
  let ?mk = "\<lambda>(score, room_id, info).
               \<lparr>result_room_id = room_id, result_info = info,
                result_img = image_data c (avatar_url info)\<rparr>"
  let ?xs = "scored toLower distance query (roomsDb c)"
  let ?ys = "sort_key fst ?xs"
  let ?res = "map ?mk (take (unat max_items) ?ys)"
  have eq: "searchRooms toLower distance c query max_items = Inr ?res"
    using assms by (rule searchRooms_eq)
  have len: "length ?res = min (unat max_items) (length (roomsDb c))"
    using assms by (simp add: length_scored min.commute)
  have m: "map (\<lambda>r. distance query (toLower (name (result_info r)))) ?res =
        map fst (take (unat max_items) ?ys)"
  proof (simp, intro ballI)
    fix y assume "y \<in> set (take (unat max_items) ?ys)"
    then have "y \<in> set ?xs" by (metis in_set_takeD set_sort)
    then show "distance query (toLower (name (result_info (?mk y)))) = fst y"
      using scored_score [of "fst y" "fst (snd y)" "snd (snd y)" toLower distance query "roomsDb c"]
      by (simp add: case_prod_beta)
  qed
  have s: "sorted (map fst (take (unat max_items) ?ys))"
    unfolding take_map [symmetric] by (rule sorted_wrt_take) (rule sorted_sort_key)
  have srt: "sorted (map (\<lambda>r. distance query (toLower (name (result_info r)))) ?res)"
    unfolding m by (rule s)
  have zero: "max_items = 0 \<longrightarrow> ?res = []" by simp
  have exact: "\<exists>others. ?res = \<lparr>result_room_id = room_id, result_info = info,
                     result_img = image_data c (avatar_url info)\<rparr> # others"
    if a: "roomsDb c = pre @ (room_id, Encoded info) # post \<and>
           query = name info \<and> toLower (name info) = name info \<and>
           distance query query = 0 \<and> (\<forall>s. 0 \<le> distance query s) \<and> max_items \<noteq> 0 \<and>
           (\<forall>(k, v)\<in>set pre. \<forall>i. v = Encoded i \<longrightarrow> distance query (toLower (name i)) \<noteq> 0)"
    for pre room_id info post
  proof -
    from a have pos: "0 < unat max_items" by (simp add: unat_gt_0)
    from a have z: "distance query (toLower (name info)) = 0" by metis
    from a have db: "roomsDb c = pre @ (room_id, Encoded info) # post" by blast
    have xs: "?xs = scored toLower distance query pre @ (0, room_id, info) # scored toLower distance query post"
      unfolding db by (simp add: scored_append z)
    from a have "\<forall>(k, v)\<in>set pre. \<forall>i. v = Encoded i \<longrightarrow> distance query (toLower (name i)) \<noteq> 0"
      by blast
    then have "filter (\<lambda>y. fst y = 0) (scored toLower distance query pre) = []"
      by (rule scored_no_zero)
    then have "filter (\<lambda>y. fst y = 0) ?xs =
          (0, room_id, info) # filter (\<lambda>y. fst y = 0) (scored toLower distance query post)"
      unfolding xs by simp
    moreover have "\<forall>y\<in>set ?xs. 0 \<le> fst y"
      using scored_score a by (metis prod.collapse)
    ultimately obtain ys where "?ys = (0, room_id, info) # ys"
      using hd_sort_key_first_zero by blast
    with pos show ?thesis by (cases "unat max_items") simp_all
  qed
  have ranking: "case Inr ?res :: error + RoomSearchResult list of
            Inl e \<Rightarrow> False
          | Inr results \<Rightarrow>
              length results = min (unat max_items) (length (roomsDb c)) \<and>
              sorted (map (\<lambda>r. distance query (toLower (name (result_info r)))) results) \<and>
              (max_items = 0 \<longrightarrow> results = [])"
    unfolding sum.case using len srt zero by (intro conjI)
  from exact ranking show ?thesis unfolding eq sum.inject by blast
qed

theorem searchRooms_spec_witness:
  "searchRooms toLower_ascii levenshtein_distance (fresh\<lparr>roomsDb :=
       [(''!a'', Encoded \<lparr>name = ''design'', topic = [], avatar_url = [], is_invite = False, member_count = 2\<rparr>),
        (''!b'', Encoded \<lparr>name = ''team'', topic = [], avatar_url = ''mxc://b'', is_invite = False, member_count = 3\<rparr>),
        (''!c'', Encoded \<lparr>name = ''Team'', topic = [], avatar_url = [], is_invite = False, member_count = 2\<rparr>)],
     mediaDb := [''mxc://b'' \<mapsto> ''png'']\<rparr>) ''team'' 2 =
     Inr [\<lparr>result_room_id = ''!b'', result_info = \<lparr>name = ''team'', topic = [], avatar_url = ''mxc://b'', is_invite = False, member_count = 3\<rparr>, result_img = ''png''\<rparr>,
          \<lparr>result_room_id = ''!c'', result_info = \<lparr>name = ''Team'', topic = [], avatar_url = [], is_invite = False, member_count = 2\<rparr>, result_img = []\<rparr>] \<and>
   searchRooms toLower_ascii levenshtein_distance (fresh\<lparr>roomsDb :=
       [(''!a'', Encoded \<lparr>name = ''design'', topic = [], avatar_url = [], is_invite = False, member_count = 2\<rparr>),
        (''!b'', Encoded \<lparr>name = ''team'', topic = [], avatar_url = ''mxc://b'', is_invite = False, member_count = 3\<rparr>),
        (''!c'', Encoded \<lparr>name = ''Team'', topic = [], avatar_url = [], is_invite = False, member_count = 2\<rparr>)],
     mediaDb := [''mxc://b'' \<mapsto> ''png'']\<rparr>) ''team'' 0 = Inr [] \<and>
   (\<exists>others. searchRooms toLower_ascii levenshtein_distance (fresh\<lparr>roomsDb :=
       [(''!a'', Encoded \<lparr>name = ''design'', topic = [], avatar_url = [], is_invite = False, member_count = 2\<rparr>),
        (''!b'', Encoded \<lparr>name = ''team'', topic = [], avatar_url = ''mxc://b'', is_invite = False, member_count = 3\<rparr>),
        (''!c'', Encoded \<lparr>name = ''Team'', topic = [], avatar_url = [], is_invite = False, member_count = 2\<rparr>)],
     mediaDb := [''mxc://b'' \<mapsto> ''png'']\<rparr>) ''team'' 2 =
      Inr (\<lparr>result_room_id = ''!b'', result_info = \<lparr>name = ''team'', topic = [], avatar_url = ''mxc://b'', is_invite = False, member_count = 3\<rparr>,
            result_img = image_data (fresh\<lparr>roomsDb :=
       [(''!a'', Encoded \<lparr>name = ''design'', topic = [], avatar_url = [], is_invite = False, member_count = 2\<rparr>),
        (''!b'', Encoded \<lparr>name = ''team'', topic = [], avatar_url = ''mxc://b'', is_invite = False, member_count = 3\<rparr>),
        (''!c'', Encoded \<lparr>name = ''Team'', topic = [], avatar_url = [], is_invite = False, member_count = 2\<rparr>)],
     mediaDb := [''mxc://b'' \<mapsto> ''png'']\<rparr>) (avatar_url \<lparr>name = ''team'', topic = [], avatar_url = ''mxc://b'', is_invite = False, member_count = 3\<rparr>)\<rparr> # others))"
proof -
  have ok: "\<forall>(k, v)\<in>set (roomsDb (fresh\<lparr>roomsDb :=
       [(''!a'', Encoded \<lparr>name = ''design'', topic = [], avatar_url = [], is_invite = False, member_count = 2\<rparr>),
        (''!b'', Encoded \<lparr>name = ''team'', topic = [], avatar_url = ''mxc://b'', is_invite = False, member_count = 3\<rparr>),
        (''!c'', Encoded \<lparr>name = ''Team'', topic = [], avatar_url = [], is_invite = False, member_count = 2\<rparr>)],
     mediaDb := [''mxc://b'' \<mapsto> ''png'']\<rparr>)). v \<noteq> Malformed"
    by (simp add: fresh_def)
  note r2 = searchRooms_spec [OF ok, of toLower_ascii levenshtein_distance "''team''" 2, THEN conjunct1]
  note r0 = searchRooms_spec [OF ok, of toLower_ascii levenshtein_distance "''team''" 0, THEN conjunct1]
  have l1: "toLower_ascii ''team'' = ''team''" by code_simp
  have l2: "levenshtein_distance ''team'' (toLower_ascii ''design'') \<noteq> 0" by code_simp
  have "roomsDb (fresh\<lparr>roomsDb :=
       [(''!a'', Encoded \<lparr>name = ''design'', topic = [], avatar_url = [], is_invite = False, member_count = 2\<rparr>),
        (''!b'', Encoded \<lparr>name = ''team'', topic = [], avatar_url = ''mxc://b'', is_invite = False, member_count = 3\<rparr>),
        (''!c'', Encoded \<lparr>name = ''Team'', topic = [], avatar_url = [], is_invite = False, member_count = 2\<rparr>)],
     mediaDb := [''mxc://b'' \<mapsto> ''png'']\<rparr>) = [(''!a'', Encoded \<lparr>name = ''design'', topic = [], avatar_url = [], is_invite = False, member_count = 2\<rparr>)] @ (''!b'', Encoded \<lparr>name = ''team'', topic = [], avatar_url = ''mxc://b'', is_invite = False, member_count = 3\<rparr>) # [(''!c'', Encoded \<lparr>name = ''Team'', topic = [], avatar_url = [], is_invite = False, member_count = 2\<rparr>)] \<and>
        ''team'' = name \<lparr>name = ''team'', topic = [], avatar_url = ''mxc://b'', is_invite = False, member_count = 3\<rparr> \<and> toLower_ascii (name \<lparr>name = ''team'', topic = [], avatar_url = ''mxc://b'', is_invite = False, member_count = 3\<rparr>) = name \<lparr>name = ''team'', topic = [], avatar_url = ''mxc://b'', is_invite = False, member_count = 3\<rparr> \<and>
        levenshtein_distance ''team'' ''team'' = 0 \<and>
        (\<forall>s. 0 \<le> levenshtein_distance ''team'' s) \<and> (2 :: 8 word) \<noteq> 0 \<and>
        (\<forall>(k, v)\<in>set [(''!a'', Encoded \<lparr>name = ''design'', topic = [], avatar_url = [], is_invite = False, member_count = 2\<rparr>)]. \<forall>i. v = Encoded i \<longrightarrow>
            levenshtein_distance ''team'' (toLower_ascii (name i)) \<noteq> 0)"
    using l1 l2 by (simp add: fresh_def levenshtein_distance_nonneg levenshtein_distance_same
                      del: levenshtein_distance.simps)
  note first = searchRooms_spec [OF ok, of toLower_ascii levenshtein_distance "''team''" 2,
                 THEN conjunct2, THEN conjunct2, rule_format, OF this]
  have a: "searchRooms toLower_ascii levenshtein_distance (fresh\<lparr>roomsDb :=
       [(''!a'', Encoded \<lparr>name = ''design'', topic = [], avatar_url = [], is_invite = False, member_count = 2\<rparr>),
        (''!b'', Encoded \<lparr>name = ''team'', topic = [], avatar_url = ''mxc://b'', is_invite = False, member_count = 3\<rparr>),
        (''!c'', Encoded \<lparr>name = ''Team'', topic = [], avatar_url = [], is_invite = False, member_count = 2\<rparr>)],
     mediaDb := [''mxc://b'' \<mapsto> ''png'']\<rparr>) ''team'' 2 =
     Inr [\<lparr>result_room_id = ''!b'', result_info = \<lparr>name = ''team'', topic = [], avatar_url = ''mxc://b'', is_invite = False, member_count = 3\<rparr>, result_img = ''png''\<rparr>,
          \<lparr>result_room_id = ''!c'', result_info = \<lparr>name = ''Team'', topic = [], avatar_url = [], is_invite = False, member_count = 2\<rparr>, result_img = []\<rparr>] \<and>
   searchRooms toLower_ascii levenshtein_distance (fresh\<lparr>roomsDb :=
       [(''!a'', Encoded \<lparr>name = ''design'', topic = [], avatar_url = [], is_invite = False, member_count = 2\<rparr>),
        (''!b'', Encoded \<lparr>name = ''team'', topic = [], avatar_url = ''mxc://b'', is_invite = False, member_count = 3\<rparr>),
        (''!c'', Encoded \<lparr>name = ''Team'', topic = [], avatar_url = [], is_invite = False, member_count = 2\<rparr>)],
     mediaDb := [''mxc://b'' \<mapsto> ''png'']\<rparr>) ''team'' 0 = Inr []"
    unfolding r2 r0 by code_simp
  from a first show ?thesis by blast
qed

text \<open>Two rooms named ``eam'' and ``Team'', the query ``Team'', the edit distance and the
  lower-casing of the ASCII letters: the room of that exact name has distance 1, not 0,
  because only its name is lower-cased, and it is neither first nor, with one item asked
  for, returned at all. Two rooms both named ``team'': whatever the lower-casing and the
  distance are, the second one is not ranked first for its exact name.\<close>

theorem searchRooms_exact_name_cex:
  "levenshtein_distance ''Team'' (toLower_ascii ''Team'') = 1 \<and>
   searchRooms toLower_ascii levenshtein_distance (fresh\<lparr>roomsDb :=
       [(''!a'', Encoded \<lparr>name = ''eam'', topic = [], avatar_url = [], is_invite = False, member_count = 2\<rparr>),
        (''!b'', Encoded \<lparr>name = ''Team'', topic = [], avatar_url = [], is_invite = False, member_count = 2\<rparr>)]\<rparr>) ''Team'' 1 =
     Inr [\<lparr>result_room_id = ''!a'', result_info = \<lparr>name = ''eam'', topic = [], avatar_url = [], is_invite = False, member_count = 2\<rparr>, result_img = []\<rparr>] \<and>
   (\<forall>toLower distance. searchRooms toLower distance (fresh\<lparr>roomsDb :=
       [(''!a'', Encoded \<lparr>name = ''team'', topic = [], avatar_url = [], is_invite = False, member_count = 2\<rparr>),
        (''!b'', Encoded \<lparr>name = ''team'', topic = [], avatar_url = [], is_invite = False, member_count = 5\<rparr>)]\<rparr>) ''team'' 1 =
     Inr [\<lparr>result_room_id = ''!a'', result_info = \<lparr>name = ''team'', topic = [], avatar_url = [], is_invite = False, member_count = 2\<rparr>, result_img = []\<rparr>])"
  apply (intro conjI allI)
    apply code_simp
   apply code_simp
  apply (simp add: searchRooms_def fresh_def image_data_def Let_def)
  done

end
